theory Spec2Isabelle
  imports Main "HOL-Library.Multiset"
begin

section \<open>JavaScript strings\<close>

text \<open>
  A JavaScript string is a sequence of UTF-16 code units. A code unit is modelled by its
  numeric value, a natural number (below 65536 for every real string; no function here
  does arithmetic on a code unit that could leave that range). String literals of the
  source are written through \<open>js\<close>, which maps each ASCII character to its code.
\<close>

type_synonym jsstring = "nat list"

definition js :: "string \<Rightarrow> jsstring" where
  "js s = map of_char s"

text \<open>
  The characters that \<open>String.prototype.trim\<close>, the regular-expression class \<open>\s\<close> and
  \<open>parseInt\<close> treat as white space: the ECMAScript WhiteSpace and LineTerminator code
  points (TAB, LF, VT, FF, CR, SP, NBSP, U+1680, U+2000..U+200A, U+2028, U+2029, U+202F,
  U+205F, U+3000, U+FEFF).
\<close>

definition isWhiteSpace :: "nat \<Rightarrow> bool" where
  "isWhiteSpace c =
     (c = 9 \<or> c = 10 \<or> c = 11 \<or> c = 12 \<or> c = 13 \<or> c = 32 \<or> c = 160 \<or> c = 5760
      \<or> (8192 \<le> c \<and> c \<le> 8202) \<or> c = 8232 \<or> c = 8233 \<or> c = 8239 \<or> c = 8287
      \<or> c = 12288 \<or> c = 65279)"

text \<open>The class \<open>\d\<close>: the ten ASCII digits only.\<close>

definition isDigit :: "nat \<Rightarrow> bool" where
  "isDigit c = (48 \<le> c \<and> c \<le> 57)"

text \<open>\<open>s.trim()\<close>: white space removed from both ends.\<close>

definition trim :: "jsstring \<Rightarrow> jsstring" where
  "trim s = rev (dropWhile isWhiteSpace (rev (dropWhile isWhiteSpace s)))"

text \<open>
  Matching under the \<open>i\<close> flag (without the \<open>u\<close> flag) compares the upper-case images of
  two code units, except that a non-ASCII unit is never folded onto an ASCII one. Every
  letter of the two patterns below is ASCII, so a unit matches a pattern letter exactly when
  it is that letter in upper or lower case; \<open>canonicalize\<close> is the folding restricted to
  what such a comparison can observe.
\<close>

definition canonicalize :: "nat \<Rightarrow> nat" where
  "canonicalize c = (if 97 \<le> c \<and> c \<le> 122 then c - 32 else c)"

definition ciChar :: "nat \<Rightarrow> nat \<Rightarrow> bool" where
  "ciChar c p = (canonicalize c = canonicalize p)"

text \<open>The whole of \<open>s\<close> is the literal \<open>pat\<close>, up to case.\<close>

definition ciEq :: "jsstring \<Rightarrow> jsstring \<Rightarrow> bool" where
  "ciEq pat s = list_all2 ciChar s pat"

text \<open>\<open>s\<close> starts with the literal \<open>pat\<close>, up to case; the rest of \<open>s\<close> is returned.\<close>

definition ciPrefix :: "jsstring \<Rightarrow> jsstring \<Rightarrow> jsstring option" where
  "ciPrefix pat s =
     (if ciEq pat (take (length pat) s) then Some (drop (length pat) s) else None)"

text \<open>\<open>\s+\<close> at the head of \<open>s\<close>: at least one white-space unit, then all that follow.\<close>

definition spaces1 :: "jsstring \<Rightarrow> jsstring option" where
  "spaces1 s =
     (case s of [] \<Rightarrow> None
      | c # r \<Rightarrow> if isWhiteSpace c then Some (dropWhile isWhiteSpace r) else None)"

text \<open>\<open>(\d{4})$\<close>: the whole of \<open>s\<close> is four digits.\<close>

definition fourDigits :: "jsstring \<Rightarrow> bool" where
  "fourDigits s = (length s = 4 \<and> list_all isDigit s)"

text \<open>
  \<open>Number.parseInt(s, 10)\<close>: leading white space is skipped, one sign is read, then the
  longest run of decimal digits; \<open>None\<close> is NaN (no digit). The value is exact for every
  run of at most fifteen digits, which covers the four-digit captures it is applied to.
\<close>

definition digitsValue :: "jsstring \<Rightarrow> int" where
  "digitsValue z = foldl (\<lambda>acc c. 10 * acc + (int c - 48)) 0 z"

definition parseInt :: "jsstring \<Rightarrow> int option" where
  "parseInt s =
     (let S = dropWhile isWhiteSpace s;
          sign = (case S of c # r \<Rightarrow> if c = 45 then - 1 else 1 | [] \<Rightarrow> (1::int));
          S1 = (case S of c # r \<Rightarrow> if c = 45 \<or> c = 43 then r else S | [] \<Rightarrow> S);
          Z = takeWhile isDigit S1
      in if Z = [] then None else Some (sign * digitsValue Z))"

section \<open>The range parser\<close>

text \<open>The object \<open>{ start, end }\<close>; \<open>end\<close> is a keyword of the prover, hence \<open>endYear\<close>.\<close>

record YearRange =
  start :: int
  endYear :: int

text \<open>
  \<open>trimmed.match(/^(\d{4})\s*-\s*(\d{4}|present)$/i)\<close>, returning the two captures.
  The pattern is anchored at both ends and no class overlaps the unit that follows it
  (a digit, a hyphen and a letter are not white space), so the greedy \<open>\s*\<close> never has to
  give a unit back: matching is a single left-to-right pass.
\<close>

definition matchYearRange :: "jsstring \<Rightarrow> (jsstring \<times> jsstring) option" where
  "matchYearRange s =
     (let g1 = take 4 s in
      if fourDigits g1 then
        (case dropWhile isWhiteSpace (drop 4 s) of
           [] \<Rightarrow> None
         | c # r \<Rightarrow>
             if c = 45 then
               (let g2 = dropWhile isWhiteSpace r in
                if fourDigits g2 \<or> ciEq (js ''present'') g2 then Some (g1, g2) else None)
             else None)
      else None)"

text \<open>\<open>/present/i.test(s)\<close>: the literal occurs somewhere in \<open>s\<close>, up to case.\<close>

fun testPresent :: "jsstring \<Rightarrow> bool" where
  "testPresent [] = False"
| "testPresent (c # cs) = (ciPrefix (js ''present'') (c # cs) \<noteq> None \<or> testPresent cs)"

text \<open>\<open>trimmed.match(/^In\s+School\s+Before\s+(\d{4})$/i)\<close>, returning the capture.\<close>

definition matchBefore :: "jsstring \<Rightarrow> jsstring option" where
  "matchBefore s =
     Option.bind (ciPrefix (js ''In'') s) (\<lambda>r1.
     Option.bind (spaces1 r1) (\<lambda>r2.
     Option.bind (ciPrefix (js ''School'') r2) (\<lambda>r3.
     Option.bind (spaces1 r3) (\<lambda>r4.
     Option.bind (ciPrefix (js ''Before'') r4) (\<lambda>r5.
     Option.bind (spaces1 r5) (\<lambda>g1.
     if fourDigits g1 then Some g1 else None))))))"

text \<open>
  \<open>parseType\<close>. The module constant \<open>currentYear\<close> (the calendar year read from the clock
  when the script starts) is a parameter. \<open>Number.isNaN\<close> of a parsed capture is the case
  \<open>None\<close> of \<open>parseInt\<close>; the clock's year is never NaN.
\<close>

definition parseType :: "int \<Rightarrow> jsstring \<Rightarrow> YearRange option" where
  "parseType currentYear rawType =
     (let trimmed = trim rawType in
      case matchYearRange trimmed of
        Some (g1, g2) \<Rightarrow>
          (let start = parseInt g1;
               end = (if testPresent g2 then Some currentYear else parseInt g2)
           in case (start, end) of
                (Some s, Some e) \<Rightarrow>
                  if s \<le> e then Some \<lparr>start = s, endYear = e\<rparr> else None
              | _ \<Rightarrow> None)
      | None \<Rightarrow>
          (case matchBefore trimmed of
             Some g \<Rightarrow>
               (case parseInt g of
                  Some e \<Rightarrow> if e \<ge> 1900 then Some \<lparr>start = 1900, endYear = e\<rparr> else None
                | None \<Rightarrow> None)
           | None \<Rightarrow> None))"

section \<open>Rows, issues and the facts of a school\<close>

text \<open>
  A parsed row: the three columns read by the script. A column the row does not have is
  \<open>None\<close> (\<open>undefined\<close> in the source, replaced by the empty string through \<open>?? ""\<close>).
\<close>

record Row =
  School_Name :: "jsstring option"
  Link :: "jsstring option"
  Type :: "jsstring option"

definition orEmpty :: "jsstring option \<Rightarrow> jsstring" where
  "orEmpty v = (case v of None \<Rightarrow> [] | Some s \<Rightarrow> s)"

record MissingSchoolNameIssue =
  line :: int

record MissingLinkIssue =
  line :: int
  schoolName :: jsstring
  type :: jsstring

record MissingTypeIssue =
  line :: int
  schoolName :: jsstring

record InvalidTypeIssue =
  line :: int
  schoolName :: jsstring
  type :: jsstring

record GapIssue =
  schoolName :: jsstring
  fromYear :: int
  toYear :: int
  prevLine :: int
  currLine :: int

record OverlapIssue =
  schoolName :: jsstring
  overlapStart :: int
  overlapEnd :: int
  prevLine :: int
  currLine :: int

record Issues =
  missingSchoolName :: "MissingSchoolNameIssue list"
  missingLink :: "MissingLinkIssue list"
  missingType :: "MissingTypeIssue list"
  invalidType :: "InvalidTypeIssue list"
  gaps :: "GapIssue list"
  overlaps :: "OverlapIssue list"

text \<open>
  An element of a school's array in \<open>rangesBySchool\<close>:
  \<open>{ line, start, end, rawType, link }\<close>, the parsed range with the row it came from.
\<close>

record RangeEntry = YearRange +
  line :: int
  rawType :: jsstring
  link :: jsstring

text \<open>
  \<open>rangesBySchool\<close> is a JavaScript \<open>Map\<close>, which iterates in the order in which its keys
  were first inserted: an association list in that order. \<open>mapSet\<close> replaces the value of
  a key already present where it stands and appends a new key at the end.
\<close>

type_synonym ranges_map = "(jsstring \<times> RangeEntry list) list"

definition mapGet :: "ranges_map \<Rightarrow> jsstring \<Rightarrow> RangeEntry list option" where
  "mapGet m k = map_of m k"

fun mapSet :: "jsstring \<Rightarrow> RangeEntry list \<Rightarrow> ranges_map \<Rightarrow> ranges_map" where
  "mapSet k v [] = [(k, v)]"
| "mapSet k v (e # m) = (if fst e = k then (k, v) # m else e # mapSet k v m)"

record State =
  issues :: Issues
  rangesBySchool :: ranges_map

definition initialState :: State where
  "initialState =
     \<lparr>issues = \<lparr>missingSchoolName = [], missingLink = [], missingType = [],
                 invalidType = [], gaps = [], overlaps = []\<rparr>,
      rangesBySchool = []\<rparr>"

section \<open>The row classifier\<close>

text \<open>
  The body of \<open>rows.forEach((row, index) => ...)\<close>. An empty string is falsy, so
  \<open>!schoolName\<close> is \<open>schoolName = []\<close>; each \<open>return\<close> ends the row.
\<close>

definition classifyRow :: "int \<Rightarrow> nat \<Rightarrow> Row \<Rightarrow> State \<Rightarrow> State" where
  "classifyRow currentYear index row st =
     (let rowNumber = int index + 2;
          schoolName = trim (orEmpty (School_Name row));
          link = trim (orEmpty (Link row));
          type = trim (orEmpty (Type row))
      in
      if schoolName = [] then
        st\<lparr>issues := (issues st)\<lparr>missingSchoolName :=
              missingSchoolName (issues st) @ [\<lparr>MissingSchoolNameIssue.line = rowNumber\<rparr>]\<rparr>\<rparr>
      else
        let st1 =
          (if link = [] then
             st\<lparr>issues := (issues st)\<lparr>missingLink :=
                   missingLink (issues st) @
                     [\<lparr>MissingLinkIssue.line = rowNumber,
                       MissingLinkIssue.schoolName = schoolName,
                       MissingLinkIssue.type = type\<rparr>]\<rparr>\<rparr>
           else st)
        in
        if type = [] then
          st1\<lparr>issues := (issues st1)\<lparr>missingType :=
                missingType (issues st1) @
                  [\<lparr>MissingTypeIssue.line = rowNumber,
                    MissingTypeIssue.schoolName = schoolName\<rparr>]\<rparr>\<rparr>
        else
          case parseType currentYear type of
            None \<Rightarrow>
              st1\<lparr>issues := (issues st1)\<lparr>invalidType :=
                    invalidType (issues st1) @
                      [\<lparr>InvalidTypeIssue.line = rowNumber,
                        InvalidTypeIssue.schoolName = schoolName,
                        InvalidTypeIssue.type = type\<rparr>]\<rparr>\<rparr>
          | Some parsedType \<Rightarrow>
              let existing =
                    (case mapGet (rangesBySchool st1) schoolName of
                       None \<Rightarrow> [] | Some a \<Rightarrow> a)
              in st1\<lparr>rangesBySchool :=
                       mapSet schoolName
                         (existing @
                            [\<lparr>start = start parsedType, endYear = endYear parsedType,
                              line = rowNumber, rawType = type, link = link\<rparr>])
                         (rangesBySchool st1)\<rparr>)"

text \<open>\<open>rows.forEach\<close>: the callback runs on every row in order, with its 0-based index.\<close>

fun forEachFrom :: "(nat \<Rightarrow> 'a \<Rightarrow> 's \<Rightarrow> 's) \<Rightarrow> nat \<Rightarrow> 'a list \<Rightarrow> 's \<Rightarrow> 's" where
  "forEachFrom f index [] st = st"
| "forEachFrom f index (row # rows) st = forEachFrom f (Suc index) rows (f index row st)"

definition forEach :: "(nat \<Rightarrow> 'a \<Rightarrow> 's \<Rightarrow> 's) \<Rightarrow> 'a list \<Rightarrow> 's \<Rightarrow> 's" where
  "forEach f rows st = forEachFrom f 0 rows st"

definition classifyRows :: "int \<Rightarrow> Row list \<Rightarrow> State \<Rightarrow> State" where
  "classifyRows currentYear rows st = forEach (classifyRow currentYear) rows st"

section \<open>The per-school reconciler\<close>

text \<open>
  The comparator \<open>(a, b) => a.start - b.start || a.end - b.end\<close>: the first difference
  when it is not zero, the second otherwise.
\<close>

definition compareRanges :: "RangeEntry \<Rightarrow> RangeEntry \<Rightarrow> int" where
  "compareRanges a b =
     (if start a - start b \<noteq> 0 then start a - start b else endYear a - endYear b)"

text \<open>
  \<open>Array.prototype.sort\<close> is stable and, for a consistent comparator such as this one,
  returns the one stable ascending arrangement of the array; insertion sort computes it.
\<close>

fun insertBy :: "('a \<Rightarrow> 'a \<Rightarrow> int) \<Rightarrow> 'a \<Rightarrow> 'a list \<Rightarrow> 'a list" where
  "insertBy cmp x [] = [x]"
| "insertBy cmp x (y # ys) = (if cmp x y \<le> 0 then x # y # ys else y # insertBy cmp x ys)"

definition sortBy :: "('a \<Rightarrow> 'a \<Rightarrow> int) \<Rightarrow> 'a list \<Rightarrow> 'a list" where
  "sortBy cmp xs = foldr (insertBy cmp) xs []"

text \<open>
  The body of the inner loop for one adjacent pair: a gap, else an overlap, else nothing.
\<close>

definition checkPair :: "jsstring \<Rightarrow> RangeEntry \<Rightarrow> RangeEntry \<Rightarrow> Issues \<Rightarrow> Issues" where
  "checkPair name = (\<lambda>prev curr iss.
      if start curr > endYear prev + 1 then
        iss\<lparr>gaps := gaps iss @
          [\<lparr>GapIssue.schoolName = name,
            fromYear = endYear prev + 1,
            toYear = start curr - 1,
            GapIssue.prevLine = line prev,
            GapIssue.currLine = line curr\<rparr>]\<rparr>
      else if start curr \<le> endYear prev then
        iss\<lparr>overlaps := overlaps iss @
          [\<lparr>OverlapIssue.schoolName = name,
            overlapStart = start curr,
            overlapEnd = min (endYear prev) (endYear curr),
            OverlapIssue.prevLine = line prev,
            OverlapIssue.currLine = line curr\<rparr>]\<rparr>
      else iss)"

text \<open>
  The inner loop \<open>for (let i = 1; i < sorted.length; i += 1)\<close>, from a given \<open>i\<close>, with
  \<open>prev = sorted[i - 1]\<close> and \<open>curr = sorted[i]\<close>. Every index it reads is in range:
  \<open>1 \<le> i < length ranges\<close>.
\<close>

function checkAdjacent :: "jsstring \<Rightarrow> RangeEntry list \<Rightarrow> nat \<Rightarrow> Issues \<Rightarrow> Issues" where
  "checkAdjacent name ranges i iss =
     (if i < length ranges then
        checkAdjacent name ranges (i + 1) (checkPair name (ranges ! (i - 1)) (ranges ! i) iss)
      else iss)"
  by pat_completeness auto
termination
  by (relation "measure (\<lambda>(name, ranges, i, iss). length ranges - i)") auto

declare checkAdjacent.simps [simp del]

text \<open>
  The outer loop \<open>for (const [schoolName, ranges] of rangesBySchool.entries())\<close>.
  \<open>ranges.sort\<close> sorts the array of the map in place, so the loop leaves every school's
  array sorted: the map is returned with the issues.
\<close>

fun reconcileEntries :: "ranges_map \<Rightarrow> Issues \<Rightarrow> Issues \<times> ranges_map" where
  "reconcileEntries [] iss = (iss, [])"
| "reconcileEntries (e # rest) iss =
     (let schoolName = fst e;
          sorted = sortBy compareRanges (snd e);
          iss1 = checkAdjacent schoolName sorted 1 iss;
          (iss2, rest2) = reconcileEntries rest iss1
      in (iss2, (schoolName, sorted) # rest2))"

definition reconcile :: "State \<Rightarrow> State" where
  "reconcile st =
     (let (iss1, m1) = reconcileEntries (rangesBySchool st) (issues st)
      in \<lparr>issues = iss1, rangesBySchool = m1\<rparr>)"

section \<open>The issue reporter\<close>

text \<open>
  A number in a template literal: the decimal digits of an integer, with a minus sign when
  it is negative (the form JavaScript prints for every integer below \<open>10^21\<close> in magnitude).
\<close>

function digitsOf :: "nat \<Rightarrow> jsstring" where
  "digitsOf n = (if n < 10 then [48 + n] else digitsOf (n div 10) @ [48 + n mod 10])"
  by pat_completeness auto
termination
  by (relation "measure id") auto

declare digitsOf.simps [simp del]

definition numberToString :: "int \<Rightarrow> jsstring" where
  "numberToString n = (if n < 0 then 45 # digitsOf (nat (- n)) else digitsOf (nat n))"

text \<open>
  What a run leaves behind: the lines written by \<open>console.error\<close> and by \<open>console.log\<close>, in
  order, and the argument of \<open>process.exit\<close> when it was called (\<open>None\<close>: the function
  returned).
\<close>

record Outcome =
  stderr :: "jsstring list"
  stdout :: "jsstring list"
  exit :: "nat option"

text \<open>The status the process ends with: 0 when the script runs to its end.\<close>

definition exitStatus :: "Outcome \<Rightarrow> nat" where
  "exitStatus out = (case exit out of Some code \<Rightarrow> code | None \<Rightarrow> 0)"

text \<open>
  One block \<open>if (items.length > 0) { hasIssues = true; console.error(header); for (const
  item of items) console.error(render(item)); }\<close> of \<open>reportAndExit\<close>, acting on the flag and
  on the lines written so far.
\<close>

definition reportCategory ::
  "jsstring \<Rightarrow> ('a \<Rightarrow> jsstring) \<Rightarrow> 'a list \<Rightarrow> bool \<times> jsstring list \<Rightarrow> bool \<times> jsstring list" where
  "reportCategory header render items = (\<lambda>(hasIssues, err).
     if length items > 0 then (True, err @ header # map render items) else (hasIssues, err))"

definition reportAndExit :: "Issues \<Rightarrow> Outcome" where
  "reportAndExit iss =
     (let s0 = (False, []);
          s1 = reportCategory (10 # js ''Missing school name:'')
                 (\<lambda>item. js ''  - line '' @ numberToString (MissingSchoolNameIssue.line item))
                 (missingSchoolName iss) s0;
          s2 = reportCategory (10 # js ''Rows with missing links:'')
                 (\<lambda>item. js ''  - line '' @ numberToString (MissingLinkIssue.line item) @ js '': ''
                    @ MissingLinkIssue.schoolName item @ js '' (''
                    @ (if MissingLinkIssue.type item = [] then js ''no type''
                       else MissingLinkIssue.type item) @ js '')'')
                 (missingLink iss) s1;
          s3 = reportCategory (10 # js ''Rows with missing year ranges (Type):'')
                 (\<lambda>item. js ''  - line '' @ numberToString (MissingTypeIssue.line item) @ js '': ''
                    @ MissingTypeIssue.schoolName item)
                 (missingType iss) s2;
          s4 = reportCategory (10 # js ''Rows with invalid year ranges:'')
                 (\<lambda>item. js ''  - line '' @ numberToString (InvalidTypeIssue.line item) @ js '': ''
                    @ InvalidTypeIssue.schoolName item @ js '' ('' @ InvalidTypeIssue.type item
                    @ js '')'')
                 (invalidType iss) s3;
          s5 = reportCategory (10 # js ''Detected year gaps within the same school:'')
                 (\<lambda>item. js ''  - '' @ GapIssue.schoolName item @ js '': ''
                    @ numberToString (fromYear item) @ js ''-'' @ numberToString (toYear item)
                    @ js '' (between lines '' @ numberToString (GapIssue.prevLine item)
                    @ js '' and '' @ numberToString (GapIssue.currLine item) @ js '')'')
                 (gaps iss) s4;
          s6 = reportCategory
                 (10 # js ''Detected overlapping year ranges within the same school:'')
                 (\<lambda>item. js ''  - '' @ OverlapIssue.schoolName item @ js '': ''
                    @ numberToString (overlapStart item) @ js ''-''
                    @ numberToString (overlapEnd item)
                    @ js '' (between lines '' @ numberToString (OverlapIssue.prevLine item)
                    @ js '' and '' @ numberToString (OverlapIssue.currLine item) @ js '')'')
                 (overlaps iss) s5
      in case s6 of (hasIssues, err) \<Rightarrow>
           if hasIssues then \<lparr>stderr = err, stdout = [], exit = Some 1\<rparr>
           else \<lparr>stderr = err,
                 stdout = [js ''CSV validation passed: no missing links, invalid ranges, gaps, or overlaps found.''],
                 exit = None\<rparr>)"

text \<open>
  \<open>main\<close>, from the point where the table has been fetched and parsed: \<open>sourceLabel\<close>, the
  errors of the parse (the row, when known, and the message of each) and the rows are
  parameters.
\<close>

definition main :: "int \<Rightarrow> jsstring \<Rightarrow> (int option \<times> jsstring) list \<Rightarrow> Row list \<Rightarrow> Outcome" where
  "main currentYear sourceLabel errors rows =
     (if length errors > 0 then
        \<lparr>stderr = js ''CSV parse errors detected:'' #
           map (\<lambda>err. js ''  - row ''
                  @ (case fst err of None \<Rightarrow> js ''?'' | Some r \<Rightarrow> numberToString r)
                  @ js '': '' @ snd err) errors,
         stdout = [], exit = Some 1\<rparr>
      else if length rows = 0 then
        \<lparr>stderr = [js ''CSV appears empty or missing data rows.''], stdout = [], exit = Some 1\<rparr>
      else
        let st = reconcile (classifyRows currentYear rows initialState);
            out = reportAndExit (issues st)
        in out\<lparr>stdout := (js ''Checked source: '' @ sourceLabel) # stdout out\<rparr>)"

section \<open>The wording of the specification for the open-ended form\<close>

text \<open>
  Not taken from the source: the specification's description of the open-ended historical
  form, "the case-insensitive phrase In School Before YYYY with single spaces between the
  words", for comparison with what \<open>parseType\<close> accepts.
\<close>

definition singleSpaceBeforePhrase :: "jsstring \<Rightarrow> bool" where
  "singleSpaceBeforePhrase s =
     (ciEq (js ''In School Before '') (take 17 s) \<and> fourDigits (drop 17 s))"

section \<open>Properties of the reconciler\<close>

lemma checkPair_gaps:
  "gaps (checkPair name p c iss) =
     gaps iss @
       (if start c > endYear p + 1
        then [\<lparr>GapIssue.schoolName = name, fromYear = endYear p + 1,
               toYear = start c - 1, GapIssue.prevLine = line p,
               GapIssue.currLine = line c\<rparr>]
        else [])"
  by (simp add: checkPair_def)

lemma checkPair_overlaps:
  "overlaps (checkPair name p c iss) =
     overlaps iss @
       (if start c \<le> endYear p
        then [\<lparr>OverlapIssue.schoolName = name, overlapStart = start c,
               overlapEnd = min (endYear p) (endYear c),
               OverlapIssue.prevLine = line p,
               OverlapIssue.currLine = line c\<rparr>]
        else [])"
  by (simp add: checkPair_def)

lemma checkPair_others:
  "missingSchoolName (checkPair name p c iss) = missingSchoolName iss"
  "missingLink (checkPair name p c iss) = missingLink iss"
  "missingType (checkPair name p c iss) = missingType iss"
  "invalidType (checkPair name p c iss) = invalidType iss"
  by (simp_all add: checkPair_def)

lemma checkAdjacent_gaps:
  "gaps (checkAdjacent name rs i iss) =
     gaps iss @ concat (map (\<lambda>j.
        if start (rs ! j) > endYear (rs ! (j - 1)) + 1
        then [\<lparr>GapIssue.schoolName = name, fromYear = endYear (rs ! (j - 1)) + 1,
               toYear = start (rs ! j) - 1, GapIssue.prevLine = line (rs ! (j - 1)),
               GapIssue.currLine = line (rs ! j)\<rparr>]
        else []) [i..<length rs])"
proof (induction name rs i iss rule: checkAdjacent.induct)
  case (1 name rs i iss)
  show ?case
  proof (cases "i < length rs")
    case True
    then have upt: "[i..<length rs] = i # [i + 1..<length rs]"
      by (simp add: upt_conv_Cons)
    have "gaps (checkAdjacent name rs i iss) =
          gaps (checkAdjacent name rs (i + 1) (checkPair name (rs ! (i - 1)) (rs ! i) iss))"
      using True by (subst checkAdjacent.simps) simp
    also note "1.IH" [OF True]
    finally show ?thesis
      unfolding upt checkPair_gaps by simp
  next
    case False
    then show ?thesis by (subst checkAdjacent.simps) simp
  qed
qed

lemma checkAdjacent_overlaps:
  "overlaps (checkAdjacent name rs i iss) =
     overlaps iss @ concat (map (\<lambda>j.
        if start (rs ! j) \<le> endYear (rs ! (j - 1))
        then [\<lparr>OverlapIssue.schoolName = name, overlapStart = start (rs ! j),
               overlapEnd = min (endYear (rs ! (j - 1))) (endYear (rs ! j)),
               OverlapIssue.prevLine = line (rs ! (j - 1)),
               OverlapIssue.currLine = line (rs ! j)\<rparr>]
        else []) [i..<length rs])"
proof (induction name rs i iss rule: checkAdjacent.induct)
  case (1 name rs i iss)
  show ?case
  proof (cases "i < length rs")
    case True
    then have upt: "[i..<length rs] = i # [i + 1..<length rs]"
      by (simp add: upt_conv_Cons)
    have "overlaps (checkAdjacent name rs i iss) =
          overlaps (checkAdjacent name rs (i + 1) (checkPair name (rs ! (i - 1)) (rs ! i) iss))"
      using True by (subst checkAdjacent.simps) simp
    also note "1.IH" [OF True]
    finally show ?thesis
      unfolding upt checkPair_overlaps by simp
  next
    case False
    then show ?thesis by (subst checkAdjacent.simps) simp
  qed
qed

lemma checkAdjacent_others:
  "missingSchoolName (checkAdjacent name rs i iss) = missingSchoolName iss \<and>
   missingLink (checkAdjacent name rs i iss) = missingLink iss \<and>
   missingType (checkAdjacent name rs i iss) = missingType iss \<and>
   invalidType (checkAdjacent name rs i iss) = invalidType iss"
proof (induction name rs i iss rule: checkAdjacent.induct)
  case (1 name rs i iss)
  show ?case
  proof (cases "i < length rs")
    case True
    have "checkAdjacent name rs i iss =
          checkAdjacent name rs (i + 1) (checkPair name (rs ! (i - 1)) (rs ! i) iss)"
      using True by (subst checkAdjacent.simps) simp
    then show ?thesis
      using "1.IH" [OF True] by (simp add: checkPair_others)
  next
    case False
    then show ?thesis by (subst (1 2 3 4) checkAdjacent.simps) simp
  qed
qed

lemma compareRanges_le:
  "compareRanges a b \<le> 0 \<longleftrightarrow>
     start a < start b \<or> (start a = start b \<and> endYear a \<le> endYear b)"
  by (auto simp: compareRanges_def)

lemma mset_insertBy: "mset (insertBy cmp x xs) = add_mset x (mset xs)"
  by (induction xs) auto

lemma mset_sortBy: "mset (sortBy cmp xs) = mset xs"
  by (induction xs) (auto simp: sortBy_def mset_insertBy)

lemma set_sortBy: "set (sortBy cmp xs) = set xs"
  using mset_sortBy [of cmp xs] by (metis set_mset_mset)

lemma length_sortBy: "length (sortBy cmp xs) = length xs"
  using mset_sortBy [of cmp xs] by (metis size_mset)

lemma set_insertBy: "set (insertBy cmp x xs) = insert x (set xs)"
  using mset_insertBy [of cmp x xs] by (metis set_mset_add_mset_insert set_mset_mset)

lemma sorted_insertBy:
  "sorted_wrt (\<lambda>a b. compareRanges a b \<le> 0) xs \<Longrightarrow>
   sorted_wrt (\<lambda>a b. compareRanges a b \<le> 0) (insertBy compareRanges x xs)"
proof (induction xs)
  case Nil
  then show ?case by simp
next
  case (Cons y ys)
  show ?case
  proof (cases "compareRanges x y \<le> 0")
    case True
    have "\<forall>z\<in>set ys. compareRanges x z \<le> 0"
    proof
      fix z assume "z \<in> set ys"
      then have "compareRanges y z \<le> 0" using Cons.prems by simp
      with True show "compareRanges x z \<le> 0"
        unfolding compareRanges_le by linarith
    qed
    with True Cons.prems show ?thesis by simp
  next
    case False
    then have "compareRanges y x \<le> 0"
      unfolding compareRanges_le by linarith
    with False Cons show ?thesis
      by (auto simp: set_insertBy)
  qed
qed

lemma sorted_sortBy: "sorted_wrt (\<lambda>a b. compareRanges a b \<le> 0) (sortBy compareRanges xs)"
proof (induction xs)
  case Nil
  show ?case by (simp add: sortBy_def)
next
  case (Cons x xs)
  have "sortBy compareRanges (x # xs) = insertBy compareRanges x (sortBy compareRanges xs)"
    by (simp add: sortBy_def)
  with Cons sorted_insertBy show ?case by simp
qed

lemma sortBy_sorted_id:
  "sorted_wrt (\<lambda>a b. cmp a b \<le> 0) xs \<Longrightarrow> sortBy cmp xs = xs"
proof (induction xs)
  case Nil
  show ?case by (simp add: sortBy_def)
next
  case (Cons x xs)
  then have IH: "sortBy cmp xs = xs" by simp
  have "sortBy cmp (x # xs) = insertBy cmp x (sortBy cmp xs)"
    by (simp add: sortBy_def)
  also have "\<dots> = insertBy cmp x xs" by (simp add: IH)
  also have "\<dots> = x # xs" using Cons.prems by (cases xs) auto
  finally show ?case .
qed

lemma sortBy_idem:
  "sortBy compareRanges (sortBy compareRanges xs) = sortBy compareRanges xs"
  by (rule sortBy_sorted_id) (rule sorted_sortBy)

text \<open>Stability: entries that compare equal keep the order of the rows.\<close>

lemma filter_insertBy_eq:
  "sorted_wrt (\<lambda>a b. compareRanges a b \<le> 0) xs \<Longrightarrow> compareRanges x k = 0 \<Longrightarrow>
   filter (\<lambda>y. compareRanges y k = 0) (insertBy compareRanges x xs) =
     x # filter (\<lambda>y. compareRanges y k = 0) xs"
proof (induction xs)
  case Nil
  then show ?case by simp
next
  case (Cons y ys)
  show ?case
  proof (cases "compareRanges x y \<le> 0")
    case True
    with Cons.prems show ?thesis by simp
  next
    case False
    with Cons.prems(2) have "compareRanges y k \<noteq> 0"
      by (auto simp: compareRanges_def split: if_splits)
    with False Cons show ?thesis by simp
  qed
qed

lemma filter_insertBy_neq:
  "compareRanges x k \<noteq> 0 \<Longrightarrow>
   filter (\<lambda>y. compareRanges y k = 0) (insertBy compareRanges x xs) =
     filter (\<lambda>y. compareRanges y k = 0) xs"
  by (induction xs) auto

lemma sortBy_stable:
  "filter (\<lambda>y. compareRanges y k = 0) (sortBy compareRanges xs) =
     filter (\<lambda>y. compareRanges y k = 0) xs"
proof (induction xs)
  case Nil
  show ?case by (simp add: sortBy_def)
next
  case (Cons x xs)
  have unfold: "sortBy compareRanges (x # xs) = insertBy compareRanges x (sortBy compareRanges xs)"
    by (simp add: sortBy_def)
  show ?case
  proof (cases "compareRanges x k = 0")
    case True
    then show ?thesis
      unfolding unfold using filter_insertBy_eq [OF sorted_sortBy True, of xs] Cons by simp
  next
    case False
    then show ?thesis
      unfolding unfold using filter_insertBy_neq [OF False] Cons by simp
  qed
qed

lemma reconcileEntries_snd:
  "snd (reconcileEntries m iss) = map (\<lambda>e. (fst e, sortBy compareRanges (snd e))) m"
  by (induction m arbitrary: iss) (simp_all add: Let_def case_prod_beta)

lemma reconcileEntries_fst:
  "fst (reconcileEntries m iss) =
     fold (\<lambda>e. checkAdjacent (fst e) (sortBy compareRanges (snd e)) 1) m iss"
  by (induction m arbitrary: iss) (simp_all add: Let_def case_prod_beta)

lemma fold_checkAdjacent_gaps:
  "gaps (fold (\<lambda>e. checkAdjacent (fst e) (srt e) 1) m iss) =
     gaps iss @ concat (map (\<lambda>e. concat (map (\<lambda>j.
        if start (srt e ! j) > endYear (srt e ! (j - 1)) + 1
        then [\<lparr>GapIssue.schoolName = fst e, fromYear = endYear (srt e ! (j - 1)) + 1,
               toYear = start (srt e ! j) - 1, GapIssue.prevLine = line (srt e ! (j - 1)),
               GapIssue.currLine = line (srt e ! j)\<rparr>]
        else []) [1..<length (srt e)])) m)"
  by (induction m arbitrary: iss) (simp_all add: checkAdjacent_gaps)

lemma fold_checkAdjacent_overlaps:
  "overlaps (fold (\<lambda>e. checkAdjacent (fst e) (srt e) 1) m iss) =
     overlaps iss @ concat (map (\<lambda>e. concat (map (\<lambda>j.
        if start (srt e ! j) \<le> endYear (srt e ! (j - 1))
        then [\<lparr>OverlapIssue.schoolName = fst e, overlapStart = start (srt e ! j),
               overlapEnd = min (endYear (srt e ! (j - 1))) (endYear (srt e ! j)),
               OverlapIssue.prevLine = line (srt e ! (j - 1)),
               OverlapIssue.currLine = line (srt e ! j)\<rparr>]
        else []) [1..<length (srt e)])) m)"
  by (induction m arbitrary: iss) (simp_all add: checkAdjacent_overlaps)

lemma reconcile_issues:
  "issues (reconcile st) =
     fold (\<lambda>e. checkAdjacent (fst e) (sortBy compareRanges (snd e)) 1) (rangesBySchool st) (issues st)"
  using reconcileEntries_fst [of "rangesBySchool st" "issues st"]
  by (simp add: reconcile_def case_prod_beta)

lemma reconcile_ranges:
  "rangesBySchool (reconcile st) =
     map (\<lambda>e. (fst e, sortBy compareRanges (snd e))) (rangesBySchool st)"
  using reconcileEntries_snd [of "rangesBySchool st" "issues st"]
  by (simp add: reconcile_def case_prod_beta)

text \<open>
  Claim C1. After reconciliation the gap list is the old one followed, school by school in
  the order of the map and pair by pair in sorted order, by one record for each adjacent
  pair \<open>(prev, curr)\<close> with \<open>curr.start > prev.end + 1\<close> and by nothing for any other pair;
  the record is \<open>{schoolName, fromYear: prev.end + 1, toYear: curr.start - 1, prevLine,
  currLine}\<close>. The sorted order is ascending by start, then by end, and is a rearrangement
  of the school's facts. A school with fewer than two facts has no index \<open>i\<close> with
  \<open>1 \<le> i < length\<close>, hence no record. A contiguous pair (\<open>curr.start = prev.end + 1\<close>)
  leaves all issues as they were.
\<close>

theorem gaps_of_adjacent_pairs:
  "gaps (issues (reconcile st)) =
     gaps (issues st) @
     concat (map (\<lambda>(schoolName, ranges).
       let sorted = sortBy compareRanges ranges in
       concat (map (\<lambda>i.
         let prev = sorted ! (i - 1); curr = sorted ! i in
         if start curr > endYear prev + 1
         then [\<lparr>GapIssue.schoolName = schoolName, fromYear = endYear prev + 1,
                toYear = start curr - 1, GapIssue.prevLine = line prev,
                GapIssue.currLine = line curr\<rparr>]
         else []) [1..<length sorted])) (rangesBySchool st))
   \<and> sorted_wrt (\<lambda>a b. start a < start b \<or> (start a = start b \<and> endYear a \<le> endYear b))
         (sortBy compareRanges ranges)
   \<and> mset (sortBy compareRanges ranges) = mset ranges
   \<and> (start c = endYear p + 1 \<longrightarrow> checkPair name p c iss = iss)"
proof -
  have "gaps (issues (reconcile st)) =
     gaps (issues st) @
     concat (map (\<lambda>(schoolName, ranges).
       let sorted = sortBy compareRanges ranges in
       concat (map (\<lambda>i.
         let prev = sorted ! (i - 1); curr = sorted ! i in
         if start curr > endYear prev + 1
         then [\<lparr>GapIssue.schoolName = schoolName, fromYear = endYear prev + 1,
                toYear = start curr - 1, GapIssue.prevLine = line prev,
                GapIssue.currLine = line curr\<rparr>]
         else []) [1..<length sorted])) (rangesBySchool st))"
    unfolding reconcile_issues fold_checkAdjacent_gaps
    by (simp add: Let_def split_def cong: if_cong)
  moreover have "sorted_wrt (\<lambda>a b. start a < start b \<or> (start a = start b \<and> endYear a \<le> endYear b))
         (sortBy compareRanges ranges)"
    using sorted_sortBy [of ranges] by (simp add: compareRanges_le)
  moreover have "mset (sortBy compareRanges ranges) = mset ranges"
    by (rule mset_sortBy)
  moreover have "start c = endYear p + 1 \<longrightarrow> checkPair name p c iss = iss"
    by (simp add: checkPair_def)
  ultimately show ?thesis by blast
qed

theorem gaps_of_adjacent_pairs_witness:
  "gaps (issues (reconcile
      \<lparr>issues = issues initialState,
       rangesBySchool =
         [(js ''Lincoln'',
           [\<lparr>start = 2007, endYear = 2010, line = 3, rawType = js ''2007-2010'', link = js ''b''\<rparr>,
            \<lparr>start = 2000, endYear = 2005, line = 2, rawType = js ''2000-2005'', link = js ''a''\<rparr>])]\<rparr>))
   = [\<lparr>GapIssue.schoolName = js ''Lincoln'', fromYear = 2006, toYear = 2006,
       GapIssue.prevLine = 2, GapIssue.currLine = 3\<rparr>]
   \<and> start \<lparr>start = 2006, endYear = 2010, line = 3, rawType = [], link = []\<rparr>
       = endYear \<lparr>start = 2000, endYear = 2005, line = 2, rawType = [], link = []\<rparr> + 1
   \<and> checkPair (js ''Lincoln'')
        \<lparr>start = 2000, endYear = 2005, line = 2, rawType = [], link = []\<rparr>
        \<lparr>start = 2006, endYear = 2010, line = 3, rawType = [], link = []\<rparr>
        (issues initialState) = issues initialState"
  using gaps_of_adjacent_pairs
    [of "\<lparr>issues = issues initialState,
       rangesBySchool =
         [(js ''Lincoln'',
           [\<lparr>start = 2007, endYear = 2010, line = 3, rawType = js ''2007-2010'', link = js ''b''\<rparr>,
            \<lparr>start = 2000, endYear = 2005, line = 2, rawType = js ''2000-2005'', link = js ''a''\<rparr>])]\<rparr>"
        "[]"
        "\<lparr>start = 2006, endYear = 2010, line = 3, rawType = [], link = []\<rparr>"
        "\<lparr>start = 2000, endYear = 2005, line = 2, rawType = [], link = []\<rparr>"
        "js ''Lincoln''" "issues initialState"]
  by (simp add: initialState_def sortBy_def compareRanges_def)

text \<open>
  Claim C2. After reconciliation the overlap list is the old one followed, school by school
  and pair by pair in sorted order, by one record for each adjacent pair \<open>(prev, curr)\<close>
  with \<open>curr.start \<le> prev.end\<close> and by nothing for any other pair; the record is
  \<open>{schoolName, overlapStart: curr.start, overlapEnd: min(prev.end, curr.end), prevLine,
  currLine}\<close>. The sorted order is ascending by start, then by end, and is a rearrangement
  of the school's facts. One pair adds at most one record to the gaps and overlaps together:
  an overlapping pair adds no gap, a pair with a gap adds no overlap.
\<close>

theorem overlaps_of_adjacent_pairs:
  "overlaps (issues (reconcile st)) =
     overlaps (issues st) @
     concat (map (\<lambda>(schoolName, ranges).
       let sorted = sortBy compareRanges ranges in
       concat (map (\<lambda>i.
         let prev = sorted ! (i - 1); curr = sorted ! i in
         if start curr \<le> endYear prev
         then [\<lparr>OverlapIssue.schoolName = schoolName, overlapStart = start curr,
                overlapEnd = min (endYear prev) (endYear curr),
                OverlapIssue.prevLine = line prev,
                OverlapIssue.currLine = line curr\<rparr>]
         else []) [1..<length sorted])) (rangesBySchool st))
   \<and> sorted_wrt (\<lambda>a b. start a < start b \<or> (start a = start b \<and> endYear a \<le> endYear b))
         (sortBy compareRanges ranges)
   \<and> mset (sortBy compareRanges ranges) = mset ranges
   \<and> length (gaps (checkPair name p c iss)) + length (overlaps (checkPair name p c iss))
       \<le> length (gaps iss) + length (overlaps iss) + 1
   \<and> (start c \<le> endYear p \<longrightarrow> gaps (checkPair name p c iss) = gaps iss)
   \<and> (start c > endYear p + 1 \<longrightarrow> overlaps (checkPair name p c iss) = overlaps iss)"
proof -
  have "overlaps (issues (reconcile st)) =
     overlaps (issues st) @
     concat (map (\<lambda>(schoolName, ranges).
       let sorted = sortBy compareRanges ranges in
       concat (map (\<lambda>i.
         let prev = sorted ! (i - 1); curr = sorted ! i in
         if start curr \<le> endYear prev
         then [\<lparr>OverlapIssue.schoolName = schoolName, overlapStart = start curr,
                overlapEnd = min (endYear prev) (endYear curr),
                OverlapIssue.prevLine = line prev,
                OverlapIssue.currLine = line curr\<rparr>]
         else []) [1..<length sorted])) (rangesBySchool st))"
    unfolding reconcile_issues fold_checkAdjacent_overlaps
    by (simp add: Let_def split_def cong: if_cong)
  moreover have "sorted_wrt (\<lambda>a b. start a < start b \<or> (start a = start b \<and> endYear a \<le> endYear b))
         (sortBy compareRanges ranges)"
    using sorted_sortBy [of ranges] by (simp add: compareRanges_le)
  moreover have "mset (sortBy compareRanges ranges) = mset ranges"
    by (rule mset_sortBy)
  moreover have "length (gaps (checkPair name p c iss)) + length (overlaps (checkPair name p c iss))
       \<le> length (gaps iss) + length (overlaps iss) + 1"
    by (simp add: checkPair_def)
  moreover have "start c \<le> endYear p \<longrightarrow> gaps (checkPair name p c iss) = gaps iss"
    by (simp add: checkPair_def)
  moreover have "start c > endYear p + 1 \<longrightarrow> overlaps (checkPair name p c iss) = overlaps iss"
    by (simp add: checkPair_def)
  ultimately show ?thesis by blast
qed

text \<open>
  The facts of the witness are neither sorted nor in reverse order, and two of them share
  their start year, so the order of the records depends on both keys of the sort.
\<close>

theorem overlaps_of_adjacent_pairs_witness:
  "overlaps (issues (reconcile
      \<lparr>issues = issues initialState,
       rangesBySchool =
         [(js ''Lincoln'',
           [\<lparr>start = 2005, endYear = 2010, line = 2, rawType = js ''2005-2010'', link = js ''b''\<rparr>,
            \<lparr>start = 2000, endYear = 2006, line = 3, rawType = js ''2000-2006'', link = js ''a''\<rparr>,
            \<lparr>start = 2005, endYear = 2008, line = 4, rawType = js ''2005-2008'', link = js ''c''\<rparr>])]\<rparr>))
   = [\<lparr>OverlapIssue.schoolName = js ''Lincoln'', overlapStart = 2005, overlapEnd = 2006,
       OverlapIssue.prevLine = 3, OverlapIssue.currLine = 4\<rparr>,
      \<lparr>OverlapIssue.schoolName = js ''Lincoln'', overlapStart = 2005, overlapEnd = 2008,
       OverlapIssue.prevLine = 4, OverlapIssue.currLine = 2\<rparr>]
   \<and> sortBy compareRanges
        [\<lparr>start = 2005, endYear = 2010, line = 2, rawType = js ''2005-2010'', link = js ''b''\<rparr>,
         \<lparr>start = 2000, endYear = 2006, line = 3, rawType = js ''2000-2006'', link = js ''a''\<rparr>,
         \<lparr>start = 2005, endYear = 2008, line = 4, rawType = js ''2005-2008'', link = js ''c''\<rparr>]
     = [\<lparr>start = 2000, endYear = 2006, line = 3, rawType = js ''2000-2006'', link = js ''a''\<rparr>,
        \<lparr>start = 2005, endYear = 2008, line = 4, rawType = js ''2005-2008'', link = js ''c''\<rparr>,
        \<lparr>start = 2005, endYear = 2010, line = 2, rawType = js ''2005-2010'', link = js ''b''\<rparr>]
   \<and> start \<lparr>start = 2005, endYear = 2010, line = 3, rawType = [], link = []\<rparr>
       \<le> endYear \<lparr>start = 2000, endYear = 2006, line = 2, rawType = [], link = []\<rparr>
   \<and> gaps (checkPair (js ''Lincoln'')
        \<lparr>start = 2000, endYear = 2006, line = 2, rawType = [], link = []\<rparr>
        \<lparr>start = 2005, endYear = 2010, line = 3, rawType = [], link = []\<rparr>
        (issues initialState)) = []"
  using overlaps_of_adjacent_pairs
    [where st = "\<lparr>issues = issues initialState,
       rangesBySchool =
         [(js ''Lincoln'',
           [\<lparr>start = 2005, endYear = 2010, line = 2, rawType = js ''2005-2010'', link = js ''b''\<rparr>,
            \<lparr>start = 2000, endYear = 2006, line = 3, rawType = js ''2000-2006'', link = js ''a''\<rparr>,
            \<lparr>start = 2005, endYear = 2008, line = 4, rawType = js ''2005-2008'', link = js ''c''\<rparr>])]\<rparr>"
      and ranges =
           "[\<lparr>start = 2005, endYear = 2010, line = 2, rawType = js ''2005-2010'', link = js ''b''\<rparr>,
            \<lparr>start = 2000, endYear = 2006, line = 3, rawType = js ''2000-2006'', link = js ''a''\<rparr>,
            \<lparr>start = 2005, endYear = 2008, line = 4, rawType = js ''2005-2008'', link = js ''c''\<rparr>]"
      and name = "js ''Lincoln''"
      and p = "\<lparr>start = 2000, endYear = 2006, line = 2, rawType = [], link = []\<rparr>"
      and c = "\<lparr>start = 2005, endYear = 2010, line = 3, rawType = [], link = []\<rparr>"
      and iss = "issues initialState"]
  by (simp add: initialState_def sortBy_def compareRanges_def)

lemma reconcile_twice_issues:
  "issues (reconcile \<lparr>issues = iss0, rangesBySchool = rangesBySchool (reconcile st)\<rparr>) =
   issues (reconcile \<lparr>issues = iss0, rangesBySchool = rangesBySchool st\<rparr>)"
  by (simp add: reconcile_issues reconcile_ranges fold_map comp_def sortBy_idem)

text \<open>
  Claim C9. The reconciler sorts the arrays of the map in place. Run again on the map it
  leaves behind, from the same fresh accumulators, it reports the same gaps and the same
  overlaps, and leaves the same map.
\<close>

theorem reconcile_twice_same_output:
  "gaps (issues (reconcile
      \<lparr>issues = fresh, rangesBySchool = rangesBySchool (reconcile \<lparr>issues = fresh, rangesBySchool = m\<rparr>)\<rparr>))
     = gaps (issues (reconcile \<lparr>issues = fresh, rangesBySchool = m\<rparr>))
   \<and> overlaps (issues (reconcile
      \<lparr>issues = fresh, rangesBySchool = rangesBySchool (reconcile \<lparr>issues = fresh, rangesBySchool = m\<rparr>)\<rparr>))
     = overlaps (issues (reconcile \<lparr>issues = fresh, rangesBySchool = m\<rparr>))
   \<and> rangesBySchool (reconcile
      \<lparr>issues = fresh, rangesBySchool = rangesBySchool (reconcile \<lparr>issues = fresh, rangesBySchool = m\<rparr>)\<rparr>)
     = rangesBySchool (reconcile \<lparr>issues = fresh, rangesBySchool = m\<rparr>)"
  using reconcile_twice_issues [of fresh "\<lparr>issues = fresh, rangesBySchool = m\<rparr>"]
  by (simp add: reconcile_ranges comp_def sortBy_idem)

lemma gaps_reconcile_cases:
  assumes "g \<in> set (gaps (issues (reconcile st)))"
  shows "g \<in> set (gaps (issues st)) \<or>
         (\<exists>e\<in>set (rangesBySchool st). \<exists>j\<in>{1..<length (snd e)}.
            endYear (sortBy compareRanges (snd e) ! (j - 1)) + 1 < start (sortBy compareRanges (snd e) ! j) \<and>
            fromYear g = endYear (sortBy compareRanges (snd e) ! (j - 1)) + 1 \<and>
            toYear g = start (sortBy compareRanges (snd e) ! j) - 1)"
proof -
  from assms consider "g \<in> set (gaps (issues st))"
    | e j where "e \<in> set (rangesBySchool st)" "j \<in> {1..<length (sortBy compareRanges (snd e))}"
        "endYear (sortBy compareRanges (snd e) ! (j - 1)) + 1 < start (sortBy compareRanges (snd e) ! j)"
        "g = \<lparr>GapIssue.schoolName = fst e,
              fromYear = endYear (sortBy compareRanges (snd e) ! (j - 1)) + 1,
              toYear = start (sortBy compareRanges (snd e) ! j) - 1,
              GapIssue.prevLine = line (sortBy compareRanges (snd e) ! (j - 1)),
              GapIssue.currLine = line (sortBy compareRanges (snd e) ! j)\<rparr>"
    unfolding reconcile_issues fold_checkAdjacent_gaps
    by (auto split: if_splits)
  then show ?thesis
  proof cases
    case 1
    then show ?thesis by simp
  next
    case (2 e j)
    then have "j \<in> {1..<length (snd e)}" by (simp add: length_sortBy)
    with 2 show ?thesis by (intro disjI2 bexI [of _ e] bexI [of _ j]) simp_all
  qed
qed

lemma overlaps_reconcile_cases:
  assumes "v \<in> set (overlaps (issues (reconcile st)))"
  shows "v \<in> set (overlaps (issues st)) \<or>
         (\<exists>e\<in>set (rangesBySchool st). \<exists>j\<in>{1..<length (snd e)}.
            start (sortBy compareRanges (snd e) ! j) \<le> endYear (sortBy compareRanges (snd e) ! (j - 1)) \<and>
            overlapStart v = start (sortBy compareRanges (snd e) ! j) \<and>
            overlapEnd v = min (endYear (sortBy compareRanges (snd e) ! (j - 1)))
                               (endYear (sortBy compareRanges (snd e) ! j)))"
proof -
  from assms consider "v \<in> set (overlaps (issues st))"
    | e j where "e \<in> set (rangesBySchool st)" "j \<in> {1..<length (sortBy compareRanges (snd e))}"
        "start (sortBy compareRanges (snd e) ! j) \<le> endYear (sortBy compareRanges (snd e) ! (j - 1))"
        "v = \<lparr>OverlapIssue.schoolName = fst e,
              overlapStart = start (sortBy compareRanges (snd e) ! j),
              overlapEnd = min (endYear (sortBy compareRanges (snd e) ! (j - 1)))
                               (endYear (sortBy compareRanges (snd e) ! j)),
              OverlapIssue.prevLine = line (sortBy compareRanges (snd e) ! (j - 1)),
              OverlapIssue.currLine = line (sortBy compareRanges (snd e) ! j)\<rparr>"
    unfolding reconcile_issues fold_checkAdjacent_overlaps
    by (auto split: if_splits)
  then show ?thesis
  proof cases
    case 1
    then show ?thesis by simp
  next
    case (2 e j)
    then have "j \<in> {1..<length (snd e)}" by (simp add: length_sortBy)
    with 2 show ?thesis by (intro disjI2 bexI [of _ e] bexI [of _ j]) simp_all
  qed
qed

text \<open>
  Claim C10. When every fact has \<open>start \<le> end\<close> (and the accumulators hold only
  well-ordered records, as the empty ones do), every gap after reconciliation has
  \<open>fromYear \<le> toYear\<close> and every overlap has \<open>overlapStart \<le> overlapEnd\<close>.
\<close>

theorem reported_spans_well_ordered:
  assumes facts: "\<forall>(schoolName, ranges)\<in>set (rangesBySchool st). \<forall>r\<in>set ranges. start r \<le> endYear r"
    and old_gaps: "\<forall>g\<in>set (gaps (issues st)). fromYear g \<le> toYear g"
    and old_overlaps: "\<forall>v\<in>set (overlaps (issues st)). overlapStart v \<le> overlapEnd v"
  shows "(\<forall>g\<in>set (gaps (issues (reconcile st))). fromYear g \<le> toYear g) \<and>
         (\<forall>v\<in>set (overlaps (issues (reconcile st))). overlapStart v \<le> overlapEnd v)"
proof (intro conjI ballI)
  fix g assume "g \<in> set (gaps (issues (reconcile st)))"
  from gaps_reconcile_cases [OF this] old_gaps
  show "fromYear g \<le> toYear g" by auto
next
  fix v assume "v \<in> set (overlaps (issues (reconcile st)))"
  from overlaps_reconcile_cases [OF this]
  show "overlapStart v \<le> overlapEnd v"
  proof
    assume "v \<in> set (overlaps (issues st))"
    with old_overlaps show ?thesis by simp
  next
    assume "\<exists>e\<in>set (rangesBySchool st). \<exists>j\<in>{1..<length (snd e)}.
            start (sortBy compareRanges (snd e) ! j) \<le> endYear (sortBy compareRanges (snd e) ! (j - 1)) \<and>
            overlapStart v = start (sortBy compareRanges (snd e) ! j) \<and>
            overlapEnd v = min (endYear (sortBy compareRanges (snd e) ! (j - 1)))
                               (endYear (sortBy compareRanges (snd e) ! j))"
    then obtain e j where e: "e \<in> set (rangesBySchool st)" and j: "j < length (snd e)"
      and le: "start (sortBy compareRanges (snd e) ! j) \<le> endYear (sortBy compareRanges (snd e) ! (j - 1))"
      and vs: "overlapStart v = start (sortBy compareRanges (snd e) ! j)"
      and ve: "overlapEnd v = min (endYear (sortBy compareRanges (snd e) ! (j - 1)))
                               (endYear (sortBy compareRanges (snd e) ! j))"
      by auto
    have "sortBy compareRanges (snd e) ! j \<in> set (sortBy compareRanges (snd e))"
      using j by (simp add: length_sortBy)
    then have "sortBy compareRanges (snd e) ! j \<in> set (snd e)"
      by (simp add: set_sortBy)
    with facts e have "start (sortBy compareRanges (snd e) ! j) \<le> endYear (sortBy compareRanges (snd e) ! j)"
      by (cases e) auto
    with le vs ve show ?thesis by simp
  qed
qed

theorem reported_spans_well_ordered_witness:
  "list_all (\<lambda>g. fromYear g \<le> toYear g) (gaps (issues (reconcile
      \<lparr>issues = issues initialState,
       rangesBySchool =
         [(js ''Lincoln'',
           [\<lparr>start = 2013, endYear = 2015, line = 4, rawType = js ''2013-2015'', link = js ''c''\<rparr>,
            \<lparr>start = 2005, endYear = 2010, line = 3, rawType = js ''2005-2010'', link = js ''b''\<rparr>,
            \<lparr>start = 2000, endYear = 2006, line = 2, rawType = js ''2000-2006'', link = js ''a''\<rparr>])]\<rparr>)))
   \<and> list_all (\<lambda>v. overlapStart v \<le> overlapEnd v) (overlaps (issues (reconcile
      \<lparr>issues = issues initialState,
       rangesBySchool =
         [(js ''Lincoln'',
           [\<lparr>start = 2013, endYear = 2015, line = 4, rawType = js ''2013-2015'', link = js ''c''\<rparr>,
            \<lparr>start = 2005, endYear = 2010, line = 3, rawType = js ''2005-2010'', link = js ''b''\<rparr>,
            \<lparr>start = 2000, endYear = 2006, line = 2, rawType = js ''2000-2006'', link = js ''a''\<rparr>])]\<rparr>)))"
proof -
  let ?st = "\<lparr>issues = issues initialState,
       rangesBySchool =
         [(js ''Lincoln'',
           [\<lparr>start = 2013, endYear = 2015, line = 4, rawType = js ''2013-2015'', link = js ''c''\<rparr>,
            \<lparr>start = 2005, endYear = 2010, line = 3, rawType = js ''2005-2010'', link = js ''b''\<rparr>,
            \<lparr>start = 2000, endYear = 2006, line = 2, rawType = js ''2000-2006'', link = js ''a''\<rparr>])]\<rparr>"
  have facts: "\<forall>(schoolName, ranges)\<in>set (rangesBySchool ?st). \<forall>r\<in>set ranges. start r \<le> endYear r"
    by simp
  have old_gaps: "\<forall>g\<in>set (gaps (issues ?st)). fromYear g \<le> toYear g"
    by (simp add: initialState_def)
  have old_overlaps: "\<forall>v\<in>set (overlaps (issues ?st)). overlapStart v \<le> overlapEnd v"
    by (simp add: initialState_def)
  from reported_spans_well_ordered [OF facts old_gaps old_overlaps]
  show ?thesis unfolding list_all_iff .
qed

section \<open>Properties of the range parser\<close>

lemma dropWhile_idem: "dropWhile P (dropWhile P xs) = dropWhile P xs"
  by (induction xs) auto

lemma trim_idem: "trim (trim s) = trim s"
proof -
  let ?a = "dropWhile isWhiteSpace s"
  let ?b = "dropWhile isWhiteSpace (rev ?a)"
  have hd_b: "?b \<noteq> [] \<Longrightarrow> \<not> isWhiteSpace (hd ?b)"
    by (rule hd_dropWhile)
  have last_b: "?b \<noteq> [] \<Longrightarrow> \<not> isWhiteSpace (last ?b)"
  proof -
    assume ne: "?b \<noteq> []"
    have "?a \<noteq> []"
    proof
      assume e: "?a = []"
      have "?b = []" unfolding e by simp
      with ne show False by contradiction
    qed
    then have "\<not> isWhiteSpace (hd ?a)" by (rule hd_dropWhile)
    moreover have "last ?b = last (rev ?a)"
      using ne by (metis last_appendR takeWhile_dropWhile_id)
    ultimately show ?thesis using \<open>?a \<noteq> []\<close> by (simp add: last_rev)
  qed
  have "dropWhile isWhiteSpace (rev ?b) = rev ?b"
  proof (cases "?b = []")
    case True
    show ?thesis unfolding True by simp
  next
    case False
    then have "\<not> isWhiteSpace (hd (rev ?b))" using last_b by (simp add: hd_rev)
    with False show ?thesis by (cases "rev ?b") auto
  qed
  then show ?thesis
    by (simp add: trim_def dropWhile_idem)
qed

lemma parseType_trim: "parseType cy (trim s) = parseType cy s"
  by (simp add: parseType_def trim_idem)

lemma parseType_empty: "parseType cy [] = None"
  by (simp add: parseType_def trim_def matchYearRange_def fourDigits_def matchBefore_def
      ciPrefix_def ciEq_def js_def)

lemma digit_not_space: "isDigit c \<Longrightarrow> \<not> isWhiteSpace c"
  by (auto simp: isDigit_def isWhiteSpace_def)

lemma ciChar_letter_not_space:
  "ciChar c p \<Longrightarrow> 65 \<le> p \<Longrightarrow> p \<le> 122 \<Longrightarrow> \<not> isWhiteSpace c"
  by (auto simp: ciChar_def canonicalize_def isWhiteSpace_def split: if_splits)

lemma ciChar_letter_not_digit:
  "ciChar c p \<Longrightarrow> 65 \<le> p \<Longrightarrow> p \<le> 122 \<Longrightarrow> \<not> isDigit c"
  by (auto simp: ciChar_def canonicalize_def isDigit_def split: if_splits)

lemma dropWhile_all: "list_all P w \<Longrightarrow> dropWhile P (w @ r) = dropWhile P r"
  by (induction w) auto

lemma dropWhile_hd: "r \<noteq> [] \<Longrightarrow> \<not> P (hd r) \<Longrightarrow> dropWhile P r = r"
  by (cases r) auto

lemma trim_core:
  assumes pre: "list_all isWhiteSpace pre" and post: "list_all isWhiteSpace post"
    and ne: "core \<noteq> []" and h: "\<not> isWhiteSpace (hd core)" and l: "\<not> isWhiteSpace (last core)"
  shows "trim (pre @ core @ post) = core"
proof -
  have a: "dropWhile isWhiteSpace (pre @ core @ post) = core @ post"
    using pre ne h by (simp add: dropWhile_all dropWhile_hd)
  have "list_all isWhiteSpace (rev post)" using post by (simp add: list_all_iff)
  then have "dropWhile isWhiteSpace (rev post @ rev core) = dropWhile isWhiteSpace (rev core)"
    by (rule dropWhile_all)
  also have "\<dots> = rev core"
    using ne l by (intro dropWhile_hd) (simp_all add: hd_rev)
  finally show ?thesis by (simp add: trim_def a)
qed

lemma trim_all_space: "list_all isWhiteSpace w \<Longrightarrow> trim w = []"
proof -
  assume "list_all isWhiteSpace w"
  then have e: "dropWhile isWhiteSpace w = []" by (simp add: list_all_iff)
  show ?thesis unfolding trim_def e by simp
qed

lemma trim_decomp:
  "\<exists>pre post. s = pre @ trim s @ post \<and> list_all isWhiteSpace pre \<and> list_all isWhiteSpace post"
proof -
  let ?a = "dropWhile isWhiteSpace s"
  let ?pre = "takeWhile isWhiteSpace s"
  let ?post = "rev (takeWhile isWhiteSpace (rev ?a))"
  have "rev (takeWhile isWhiteSpace (rev ?a) @ dropWhile isWhiteSpace (rev ?a)) = ?a"
    by (simp only: takeWhile_dropWhile_id rev_rev_ident)
  then have "rev (dropWhile isWhiteSpace (rev ?a)) @ ?post = ?a"
    by (simp only: rev_append)
  then have "?a = trim s @ ?post" unfolding trim_def by (rule sym)
  moreover have "s = ?pre @ ?a" by simp
  ultimately have "s = ?pre @ trim s @ ?post" by simp
  moreover have "list_all isWhiteSpace ?pre"
    by (simp add: list_all_iff) (meson set_takeWhileD)
  moreover have "list_all isWhiteSpace ?post"
    by (simp add: list_all_iff) (meson set_takeWhileD)
  ultimately show ?thesis by blast
qed

lemma fourDigits_hd_last:
  "fourDigits g \<Longrightarrow> g \<noteq> [] \<and> isDigit (hd g) \<and> isDigit (last g)"
  by (cases g) (auto simp: fourDigits_def list_all_iff)

lemma matchYearRange_form:
  assumes g1: "fourDigits g1" and w1: "list_all isWhiteSpace w1" and w2: "list_all isWhiteSpace w2"
    and g2: "g2 \<noteq> []" "\<not> isWhiteSpace (hd g2)"
  shows "matchYearRange (g1 @ w1 @ 45 # w2 @ g2) =
           (if fourDigits g2 \<or> ciEq (js ''present'') g2 then Some (g1, g2) else None)"
proof -
  have len: "length g1 = 4" using g1 by (simp add: fourDigits_def)
  have a: "dropWhile isWhiteSpace (w1 @ 45 # w2 @ g2) = 45 # w2 @ g2"
    using w1 by (simp add: dropWhile_all isWhiteSpace_def)
  have b: "dropWhile isWhiteSpace (w2 @ g2) = g2"
    using w2 g2 by (simp add: dropWhile_all dropWhile_hd)
  show ?thesis
    using g1 by (simp add: matchYearRange_def len a b)
qed

lemma parseInt_fourDigits: "fourDigits g \<Longrightarrow> parseInt g = Some (digitsValue g)"
proof -
  assume g: "fourDigits g"
  then obtain c r where gc: "g = c # r" and c: "isDigit c"
    by (cases g) (auto simp: fourDigits_def)
  have a: "dropWhile isWhiteSpace g = g"
    using gc c by (simp add: digit_not_space)
  have b: "c \<noteq> 45 \<and> c \<noteq> 43" using c by (auto simp: isDigit_def)
  have t: "takeWhile isDigit g = g"
    using g by (simp add: fourDigits_def list_all_iff)
  show ?thesis
    unfolding parseInt_def a using b t gc by (simp add: Let_def)
qed

lemma digitsValue_four:
  "digitsValue [48 + a, 48 + b, 48 + c, 48 + d] = 1000 * int a + 100 * int b + 10 * int c + int d"
  by (simp add: digitsValue_def)

lemma fourDigits_four:
  "a < 10 \<Longrightarrow> b < 10 \<Longrightarrow> c < 10 \<Longrightarrow> d < 10 \<Longrightarrow> fourDigits [48 + a, 48 + b, 48 + c, 48 + d]"
  by (simp add: fourDigits_def isDigit_def)

lemma testPresent_short: "length s < 7 \<Longrightarrow> \<not> testPresent s"
proof (induction s)
  case Nil
  show ?case by simp
next
  case (Cons c cs)
  have "\<not> ciEq (js ''present'') (take 7 (c # cs))"
    using Cons.prems by (auto simp: ciEq_def js_def dest: list_all2_lengthD)
  with Cons show ?case by (simp add: ciPrefix_def js_def)
qed

lemma testPresent_fourDigits: "fourDigits g \<Longrightarrow> \<not> testPresent g"
  by (rule testPresent_short) (simp add: fourDigits_def)

lemma ciEq_length: "ciEq pat s \<Longrightarrow> length s = length pat"
  by (simp add: ciEq_def list_all2_lengthD)

lemma testPresent_present: "ciEq (js ''present'') g \<Longrightarrow> testPresent g"
proof -
  assume p: "ciEq (js ''present'') g"
  then have len: "length g = 7" by (auto dest: ciEq_length simp: js_def)
  then obtain c cs where g: "g = c # cs" by (cases g) auto
  have "ciPrefix (js ''present'') g \<noteq> None"
    using p len by (simp add: ciPrefix_def js_def)
  then show ?thesis by (simp add: g)
qed

lemma present_ends:
  assumes "ciEq (js ''present'') g"
  shows "g \<noteq> [] \<and> \<not> isWhiteSpace (hd g) \<and> \<not> isWhiteSpace (last g) \<and> \<not> fourDigits g"
proof -
  from assms obtain a b c d e f h where g: "g = [a, b, c, d, e, f, h]"
    and a: "ciChar a 112" and h: "ciChar h 116"
    by (auto simp: ciEq_def js_def list_all2_Cons2)
  show ?thesis
    using a h by (simp add: g fourDigits_def ciChar_letter_not_space)
qed

lemma parseType_bounded_years:
  assumes pre: "list_all isWhiteSpace pre" and post: "list_all isWhiteSpace post"
    and w1: "list_all isWhiteSpace w1" and w2: "list_all isWhiteSpace w2"
    and g1: "fourDigits g1" and g2: "fourDigits g2"
  shows "parseType cy (pre @ (g1 @ w1 @ 45 # w2 @ g2) @ post) =
           (if digitsValue g1 \<le> digitsValue g2
            then Some \<lparr>start = digitsValue g1, endYear = digitsValue g2\<rparr> else None)"
proof -
  let ?core = "g1 @ w1 @ 45 # w2 @ g2"
  from fourDigits_hd_last [OF g1] fourDigits_hd_last [OF g2]
  have ends: "?core \<noteq> []" "\<not> isWhiteSpace (hd ?core)" "\<not> isWhiteSpace (last ?core)"
    and g2': "g2 \<noteq> []" "\<not> isWhiteSpace (hd g2)"
    by (simp_all add: digit_not_space)
  have t: "trim (pre @ ?core @ post) = ?core"
    using pre post ends by (rule trim_core)
  have m: "matchYearRange ?core = Some (g1, g2)"
    using matchYearRange_form [OF g1 w1 w2 g2'] g2 by simp
  show ?thesis
    unfolding parseType_def t
    by (simp add: m parseInt_fourDigits [OF g1] parseInt_fourDigits [OF g2]
        testPresent_fourDigits [OF g2])
qed

lemma parseType_bounded_present:
  assumes pre: "list_all isWhiteSpace pre" and post: "list_all isWhiteSpace post"
    and w1: "list_all isWhiteSpace w1" and w2: "list_all isWhiteSpace w2"
    and g1: "fourDigits g1" and g2: "ciEq (js ''present'') g2"
  shows "parseType cy (pre @ (g1 @ w1 @ 45 # w2 @ g2) @ post) =
           (if digitsValue g1 \<le> cy
            then Some \<lparr>start = digitsValue g1, endYear = cy\<rparr> else None)"
proof -
  let ?core = "g1 @ w1 @ 45 # w2 @ g2"
  from fourDigits_hd_last [OF g1] present_ends [OF g2]
  have ends: "?core \<noteq> []" "\<not> isWhiteSpace (hd ?core)" "\<not> isWhiteSpace (last ?core)"
    and g2': "g2 \<noteq> []" "\<not> isWhiteSpace (hd g2)"
    by (simp_all add: digit_not_space)
  have t: "trim (pre @ ?core @ post) = ?core"
    using pre post ends by (rule trim_core)
  have m: "matchYearRange ?core = Some (g1, g2)"
    using matchYearRange_form [OF g1 w1 w2 g2'] g2 by simp
  show ?thesis
    unfolding parseType_def t
    by (simp add: m parseInt_fourDigits [OF g1] testPresent_present [OF g2])
qed

lemma ciPrefix_append: "ciEq pat x \<Longrightarrow> ciPrefix pat (x @ r) = Some r"
  by (frule ciEq_length) (simp add: ciPrefix_def)

lemma spaces1_append:
  "w \<noteq> [] \<Longrightarrow> list_all isWhiteSpace w \<Longrightarrow> r \<noteq> [] \<Longrightarrow> \<not> isWhiteSpace (hd r) \<Longrightarrow>
   spaces1 (w @ r) = Some r"
  by (cases w) (simp_all add: spaces1_def dropWhile_all dropWhile_hd)

lemma In_ends:
  assumes "ciEq (js ''In'') x"
  shows "x \<noteq> [] \<and> \<not> isWhiteSpace (hd x) \<and> \<not> isDigit (hd x)"
proof -
  from assms obtain a r where "x = a # r" and "ciChar a 73"
    by (auto simp: ciEq_def js_def list_all2_Cons2)
  then show ?thesis by (simp add: ciChar_letter_not_space ciChar_letter_not_digit)
qed

lemma School_ends:
  assumes "ciEq (js ''School'') x"
  shows "x \<noteq> [] \<and> \<not> isWhiteSpace (hd x)"
proof -
  from assms obtain a r where "x = a # r" and "ciChar a 83"
    by (auto simp: ciEq_def js_def list_all2_Cons2)
  then show ?thesis by (simp add: ciChar_letter_not_space)
qed

lemma Before_ends:
  assumes "ciEq (js ''Before'') x"
  shows "x \<noteq> [] \<and> \<not> isWhiteSpace (hd x)"
proof -
  from assms obtain a r where "x = a # r" and "ciChar a 66"
    by (auto simp: ciEq_def js_def list_all2_Cons2)
  then show ?thesis by (simp add: ciChar_letter_not_space)
qed

lemma matchYearRange_no_digit: "s \<noteq> [] \<Longrightarrow> \<not> isDigit (hd s) \<Longrightarrow> matchYearRange s = None"
  by (cases s) (simp_all add: matchYearRange_def fourDigits_def)

lemma matchBefore_form:
  assumes i: "ciEq (js ''In'') x1" and s: "ciEq (js ''School'') x2" and b: "ciEq (js ''Before'') x3"
    and w1: "w1 \<noteq> []" "list_all isWhiteSpace w1"
    and w2: "w2 \<noteq> []" "list_all isWhiteSpace w2"
    and w3: "w3 \<noteq> []" "list_all isWhiteSpace w3"
    and g: "fourDigits g"
  shows "matchBefore (x1 @ w1 @ x2 @ w2 @ x3 @ w3 @ g) = Some g"
proof -
  from School_ends [OF s] have s1: "spaces1 (w1 @ x2 @ w2 @ x3 @ w3 @ g) = Some (x2 @ w2 @ x3 @ w3 @ g)"
    using w1 by (intro spaces1_append) simp_all
  from Before_ends [OF b] have s2: "spaces1 (w2 @ x3 @ w3 @ g) = Some (x3 @ w3 @ g)"
    using w2 by (intro spaces1_append) simp_all
  from fourDigits_hd_last [OF g] have s3: "spaces1 (w3 @ g) = Some g"
    using w3 by (intro spaces1_append) (simp_all add: digit_not_space)
  show ?thesis
    unfolding matchBefore_def
    by (simp add: ciPrefix_append [OF i] ciPrefix_append [OF s] ciPrefix_append [OF b] s1 s2 s3 g)
qed

lemma parseType_before:
  assumes pre: "list_all isWhiteSpace pre" and post: "list_all isWhiteSpace post"
    and i: "ciEq (js ''In'') x1" and s: "ciEq (js ''School'') x2" and b: "ciEq (js ''Before'') x3"
    and w1: "w1 \<noteq> []" "list_all isWhiteSpace w1"
    and w2: "w2 \<noteq> []" "list_all isWhiteSpace w2"
    and w3: "w3 \<noteq> []" "list_all isWhiteSpace w3"
    and g: "fourDigits g"
  shows "parseType cy (pre @ (x1 @ w1 @ x2 @ w2 @ x3 @ w3 @ g) @ post) =
           (if 1900 \<le> digitsValue g
            then Some \<lparr>start = 1900, endYear = digitsValue g\<rparr> else None)"
proof -
  let ?core = "x1 @ w1 @ x2 @ w2 @ x3 @ w3 @ g"
  from In_ends [OF i] fourDigits_hd_last [OF g]
  have ends: "?core \<noteq> []" "\<not> isWhiteSpace (hd ?core)" "\<not> isWhiteSpace (last ?core)"
    and nd: "\<not> isDigit (hd ?core)"
    by (simp_all add: digit_not_space)
  have t: "trim (pre @ ?core @ post) = ?core"
    using pre post ends by (rule trim_core)
  have m1: "matchYearRange ?core = None"
    using ends(1) nd by (rule matchYearRange_no_digit)
  have m2: "matchBefore ?core = Some g"
    using i s b w1 w2 w3 g by (rule matchBefore_form)
  show ?thesis
    unfolding parseType_def t
    by (simp add: m1 m2 parseInt_fourDigits [OF g])
qed

lemma list_all_takeWhile: "list_all P (takeWhile P xs)"
  by (induction xs) auto

lemma matchYearRange_SomeD:
  assumes "matchYearRange s = Some (g1, g2)"
  shows "\<exists>w1 w2. s = g1 @ w1 @ 45 # w2 @ g2 \<and> fourDigits g1 \<and>
           list_all isWhiteSpace w1 \<and> list_all isWhiteSpace w2 \<and>
           (fourDigits g2 \<or> ciEq (js ''present'') g2)"
proof -
  from assms obtain r where g1: "g1 = take 4 s" "fourDigits g1"
    and d: "dropWhile isWhiteSpace (drop 4 s) = 45 # r"
    and g2: "g2 = dropWhile isWhiteSpace r" "fourDigits g2 \<or> ciEq (js ''present'') g2"
    by (auto simp: matchYearRange_def Let_def split: if_splits list.splits)
  have "s = take 4 s @ drop 4 s" by simp
  also have "drop 4 s = takeWhile isWhiteSpace (drop 4 s) @ dropWhile isWhiteSpace (drop 4 s)"
    by simp
  also have "dropWhile isWhiteSpace (drop 4 s) = 45 # takeWhile isWhiteSpace r @ dropWhile isWhiteSpace r"
    by (simp add: d)
  finally have "s = g1 @ takeWhile isWhiteSpace (drop 4 s) @ 45 # takeWhile isWhiteSpace r @ g2"
    by (simp add: g1 g2)
  with g1 g2 show ?thesis
    by (blast intro: list_all_takeWhile)
qed

lemma ciPrefix_SomeD: "ciPrefix pat s = Some r \<Longrightarrow> \<exists>x. s = x @ r \<and> ciEq pat x"
proof -
  assume "ciPrefix pat s = Some r"
  then have "ciEq pat (take (length pat) s)" and "r = drop (length pat) s"
    by (auto simp: ciPrefix_def split: if_splits)
  then have "s = take (length pat) s @ r \<and> ciEq pat (take (length pat) s)" by simp
  then show ?thesis by blast
qed

lemma spaces1_SomeD:
  "spaces1 s = Some r \<Longrightarrow> \<exists>w. s = w @ r \<and> w \<noteq> [] \<and> list_all isWhiteSpace w"
proof -
  assume "spaces1 s = Some r"
  then obtain c t where s: "s = c # t" and c: "isWhiteSpace c" and r: "r = dropWhile isWhiteSpace t"
    by (auto simp: spaces1_def split: list.splits if_splits)
  have "s = (c # takeWhile isWhiteSpace t) @ r" by (simp add: s r)
  moreover have "list_all isWhiteSpace (c # takeWhile isWhiteSpace t)"
    using c by (simp add: list_all_takeWhile)
  ultimately show ?thesis by blast
qed

lemma matchBefore_SomeD:
  assumes "matchBefore s = Some g"
  shows "\<exists>x1 w1 x2 w2 x3 w3. s = x1 @ w1 @ x2 @ w2 @ x3 @ w3 @ g \<and>
           ciEq (js ''In'') x1 \<and> w1 \<noteq> [] \<and> list_all isWhiteSpace w1 \<and>
           ciEq (js ''School'') x2 \<and> w2 \<noteq> [] \<and> list_all isWhiteSpace w2 \<and>
           ciEq (js ''Before'') x3 \<and> w3 \<noteq> [] \<and> list_all isWhiteSpace w3 \<and>
           fourDigits g"
proof -
  from assms obtain r1 r2 r3 r4 r5 where
    p1: "ciPrefix (js ''In'') s = Some r1" and q1: "spaces1 r1 = Some r2" and
    p2: "ciPrefix (js ''School'') r2 = Some r3" and q2: "spaces1 r3 = Some r4" and
    p3: "ciPrefix (js ''Before'') r4 = Some r5" and q3: "spaces1 r5 = Some g" and
    g: "fourDigits g"
    by (auto simp: matchBefore_def bind_eq_Some_conv split: if_splits)
  from ciPrefix_SomeD [OF p1] obtain x1 where 1: "s = x1 @ r1" "ciEq (js ''In'') x1" by blast
  from spaces1_SomeD [OF q1] obtain w1 where 2: "r1 = w1 @ r2" "w1 \<noteq> []" "list_all isWhiteSpace w1" by blast
  from ciPrefix_SomeD [OF p2] obtain x2 where 3: "r2 = x2 @ r3" "ciEq (js ''School'') x2" by blast
  from spaces1_SomeD [OF q2] obtain w2 where 4: "r3 = w2 @ r4" "w2 \<noteq> []" "list_all isWhiteSpace w2" by blast
  from ciPrefix_SomeD [OF p3] obtain x3 where 5: "r4 = x3 @ r5" "ciEq (js ''Before'') x3" by blast
  from spaces1_SomeD [OF q3] obtain w3 where 6: "r5 = w3 @ g" "w3 \<noteq> []" "list_all isWhiteSpace w3" by blast
  have "s = x1 @ w1 @ x2 @ w2 @ x3 @ w3 @ g"
    by (simp add: 1 2 3 4 5 6)
  with 1 2 3 4 5 6 g show ?thesis by blast
qed

lemma parseType_SomeD:
  assumes "parseType cy raw = Some r"
  shows "(\<exists>g1 g2. matchYearRange (trim raw) = Some (g1, g2)) \<or>
         (\<exists>g. matchBefore (trim raw) = Some g \<and> 1900 \<le> digitsValue g \<and>
               r = \<lparr>start = 1900, endYear = digitsValue g\<rparr>)"
proof (cases "matchYearRange (trim raw)")
  case (Some a)
  then show ?thesis by (cases a) simp
next
  case None
  with assms obtain g e where m: "matchBefore (trim raw) = Some g"
    and p: "parseInt g = Some e" and e: "1900 \<le> e" "r = \<lparr>start = 1900, endYear = e\<rparr>"
    by (auto simp: parseType_def split: option.splits if_splits)
  from matchBefore_SomeD [OF m] have "fourDigits g" by blast
  with p have "e = digitsValue g" by (simp add: parseInt_fourDigits)
  with m e show ?thesis by blast
qed

lemma parseType_Some_forms:
  assumes "parseType cy raw = Some r"
  shows "(\<exists>pre post g1 w1 w2 g2.
            raw = pre @ g1 @ w1 @ [45] @ w2 @ g2 @ post \<and>
            list_all isWhiteSpace pre \<and> list_all isWhiteSpace post \<and>
            list_all isWhiteSpace w1 \<and> list_all isWhiteSpace w2 \<and>
            fourDigits g1 \<and> (fourDigits g2 \<or> ciEq (js ''present'') g2))
       \<or> (\<exists>pre post x1 w1 x2 w2 x3 w3 g.
            raw = pre @ x1 @ w1 @ x2 @ w2 @ x3 @ w3 @ g @ post \<and>
            list_all isWhiteSpace pre \<and> list_all isWhiteSpace post \<and>
            ciEq (js ''In'') x1 \<and> w1 \<noteq> [] \<and> list_all isWhiteSpace w1 \<and>
            ciEq (js ''School'') x2 \<and> w2 \<noteq> [] \<and> list_all isWhiteSpace w2 \<and>
            ciEq (js ''Before'') x3 \<and> w3 \<noteq> [] \<and> list_all isWhiteSpace w3 \<and>
            fourDigits g \<and> 1900 \<le> digitsValue g \<and>
            r = \<lparr>start = 1900, endYear = digitsValue g\<rparr>)"
proof -
  from trim_decomp [of raw] obtain pre post where
    raw: "raw = pre @ trim raw @ post" and pre: "list_all isWhiteSpace pre"
    and post: "list_all isWhiteSpace post" by blast
  from parseType_SomeD [OF assms] show ?thesis
  proof
    assume "\<exists>g1 g2. matchYearRange (trim raw) = Some (g1, g2)"
    then obtain g1 g2 where "matchYearRange (trim raw) = Some (g1, g2)" by blast
    from matchYearRange_SomeD [OF this] obtain w1 w2 where
      t: "trim raw = g1 @ w1 @ 45 # w2 @ g2" and rest: "fourDigits g1"
      "list_all isWhiteSpace w1" "list_all isWhiteSpace w2"
      "fourDigits g2 \<or> ciEq (js ''present'') g2" by blast
    have "raw = pre @ g1 @ w1 @ [45] @ w2 @ g2 @ post"
      by (subst raw) (simp add: t)
    with pre post rest show ?thesis by blast
  next
    assume "\<exists>g. matchBefore (trim raw) = Some g \<and> 1900 \<le> digitsValue g \<and>
               r = \<lparr>start = 1900, endYear = digitsValue g\<rparr>"
    then obtain g where m: "matchBefore (trim raw) = Some g" and
      v: "1900 \<le> digitsValue g" "r = \<lparr>start = 1900, endYear = digitsValue g\<rparr>" by blast
    from matchBefore_SomeD [OF m] obtain x1 w1 x2 w2 x3 w3 where
      t: "trim raw = x1 @ w1 @ x2 @ w2 @ x3 @ w3 @ g" and rest:
      "ciEq (js ''In'') x1" "w1 \<noteq> []" "list_all isWhiteSpace w1"
      "ciEq (js ''School'') x2" "w2 \<noteq> []" "list_all isWhiteSpace w2"
      "ciEq (js ''Before'') x3" "w3 \<noteq> []" "list_all isWhiteSpace w3"
      "fourDigits g" by blast
    have "raw = pre @ x1 @ w1 @ x2 @ w2 @ x3 @ w3 @ g @ post"
      by (subst raw) (simp add: t)
    with pre post rest v show ?thesis by blast
  qed
qed

text \<open>
  Claim C3. A text made of white space, four digits \<open>Y1\<close>, optional white space, a hyphen,
  optional white space, four digits \<open>Y2\<close> and white space parses to \<open>{start: Y1, end: Y2}\<close>
  when \<open>Y1 \<le> Y2\<close> and to null otherwise; with the word "present" in any case in place of
  \<open>Y2\<close>, the end is the current year.
\<close>

theorem parseType_bounded_form:
  assumes "list_all isWhiteSpace pre" and "list_all isWhiteSpace post"
    and "list_all isWhiteSpace w1" and "list_all isWhiteSpace w2"
    and "a1 < 10" "a2 < 10" "a3 < 10" "a4 < 10"
    and "b1 < 10" "b2 < 10" "b3 < 10" "b4 < 10"
  shows "parseType currentYear
           (pre @ [48 + a1, 48 + a2, 48 + a3, 48 + a4] @ w1 @ [45] @ w2 @
            [48 + b1, 48 + b2, 48 + b3, 48 + b4] @ post) =
           (if 1000 * int a1 + 100 * int a2 + 10 * int a3 + int a4
                 \<le> 1000 * int b1 + 100 * int b2 + 10 * int b3 + int b4
            then Some \<lparr>start = 1000 * int a1 + 100 * int a2 + 10 * int a3 + int a4,
                        endYear = 1000 * int b1 + 100 * int b2 + 10 * int b3 + int b4\<rparr>
            else None)
       \<and> (ciEq (js ''present'') p \<longrightarrow>
          parseType currentYear
           (pre @ [48 + a1, 48 + a2, 48 + a3, 48 + a4] @ w1 @ [45] @ w2 @ p @ post) =
           (if 1000 * int a1 + 100 * int a2 + 10 * int a3 + int a4 \<le> currentYear
            then Some \<lparr>start = 1000 * int a1 + 100 * int a2 + 10 * int a3 + int a4,
                        endYear = currentYear\<rparr>
            else None))"
proof -
  have g1: "fourDigits [48 + a1, 48 + a2, 48 + a3, 48 + a4]"
    using assms by (simp add: fourDigits_four)
  have g2: "fourDigits [48 + b1, 48 + b2, 48 + b3, 48 + b4]"
    using assms by (simp add: fourDigits_four)
  have years: "parseType currentYear
           (pre @ [48 + a1, 48 + a2, 48 + a3, 48 + a4] @ w1 @ [45] @ w2 @
            [48 + b1, 48 + b2, 48 + b3, 48 + b4] @ post) =
           (if 1000 * int a1 + 100 * int a2 + 10 * int a3 + int a4
                 \<le> 1000 * int b1 + 100 * int b2 + 10 * int b3 + int b4
            then Some \<lparr>start = 1000 * int a1 + 100 * int a2 + 10 * int a3 + int a4,
                        endYear = 1000 * int b1 + 100 * int b2 + 10 * int b3 + int b4\<rparr>
            else None)"
    using parseType_bounded_years [OF assms(1-4) g1 g2, of currentYear]
    by (simp add: digitsValue_four)
  have present: "parseType currentYear
           (pre @ [48 + a1, 48 + a2, 48 + a3, 48 + a4] @ w1 @ [45] @ w2 @ p @ post) =
           (if 1000 * int a1 + 100 * int a2 + 10 * int a3 + int a4 \<le> currentYear
            then Some \<lparr>start = 1000 * int a1 + 100 * int a2 + 10 * int a3 + int a4,
                        endYear = currentYear\<rparr>
            else None)" if p: "ciEq (js ''present'') p"
    using parseType_bounded_present [OF assms(1-4) g1 p, of currentYear]
    by (simp add: digitsValue_four)
  from years present show ?thesis by blast
qed

theorem parseType_bounded_form_witness:
  "parseType 2026 (js '' 2000 -2005'') = Some \<lparr>start = 2000, endYear = 2005\<rparr>
   \<and> parseType 2026 (js '' 2000 -Present'') = Some \<lparr>start = 2000, endYear = 2026\<rparr>"
  using parseType_bounded_form [where pre = "js '' ''" and post = "[]" and ?w1.0 = "js '' ''"
      and ?w2.0 = "[]" and ?a1.0 = 2 and ?a2.0 = 0 and ?a3.0 = 0 and ?a4.0 = 0
      and ?b1.0 = 2 and ?b2.0 = 0 and ?b3.0 = 0 and ?b4.0 = 5
      and p = "js ''Present''" and currentYear = 2026]
  by (simp add: js_def isWhiteSpace_def ciEq_def ciChar_def canonicalize_def)

lemma parseType_two_spaces:
  "parseType cy (js ''In  School Before 1995'') = Some \<lparr>start = 1900, endYear = 1995\<rparr>"
  using parseType_before [where pre = "[]" and post = "[]" and ?x1.0 = "js ''In''"
      and ?x2.0 = "js ''School''" and ?x3.0 = "js ''Before''" and ?w1.0 = "js ''  ''"
      and ?w2.0 = "js '' ''" and ?w3.0 = "js '' ''" and g = "js ''1995''" and cy = cy]
  by (simp add: js_def isWhiteSpace_def ciEq_def ciChar_def canonicalize_def fourDigits_def
      isDigit_def digitsValue_def)

text \<open>
  Claim C4 as stated fails: with two spaces after "In" the text is not the phrase with
  single spaces, and \<open>parseType\<close> succeeds on it.
\<close>

theorem two_spaces_counterexample:
  "parseType 2026 (js ''In  School Before 1995'') = Some \<lparr>start = 1900, endYear = 1995\<rparr>
   \<and> \<not> singleSpaceBeforePhrase (trim (js ''In  School Before 1995''))"
proof -
  have "trim (js ''In  School Before 1995'') = js ''In  School Before 1995''"
    by (simp add: trim_def js_def isWhiteSpace_def)
  moreover have "\<not> singleSpaceBeforePhrase (js ''In  School Before 1995'')"
    by (simp add: singleSpaceBeforePhrase_def js_def ciEq_def ciChar_def canonicalize_def)
  ultimately show ?thesis using parseType_two_spaces [of 2026] by simp
qed

text \<open>
  Claim C4, amended. On the phrase "In School Before YYYY" in any case, with one or more
  white-space characters in each place between the words and before the year, \<open>parseType\<close>
  returns \<open>{start: 1900, end: YYYY}\<close> when \<open>YYYY \<ge> 1900\<close> and null when \<open>YYYY < 1900\<close>.
  Whenever \<open>parseType\<close> succeeds, the text is, up to white space at both ends, of the bounded
  form or of this form, and in the second case the result is \<open>{start: 1900, end: YYYY}\<close>
  with \<open>YYYY \<ge> 1900\<close>; any other text gives null.
\<close>

theorem parseType_open_before_form:
  "(list_all isWhiteSpace pre \<and> list_all isWhiteSpace post \<and>
    ciEq (js ''In'') x1 \<and> w1 \<noteq> [] \<and> list_all isWhiteSpace w1 \<and>
    ciEq (js ''School'') x2 \<and> w2 \<noteq> [] \<and> list_all isWhiteSpace w2 \<and>
    ciEq (js ''Before'') x3 \<and> w3 \<noteq> [] \<and> list_all isWhiteSpace w3 \<and>
    a < 10 \<and> b < 10 \<and> c < 10 \<and> d < 10 \<longrightarrow>
    parseType currentYear
      (pre @ x1 @ w1 @ x2 @ w2 @ x3 @ w3 @ [48 + a, 48 + b, 48 + c, 48 + d] @ post) =
      (if 1900 \<le> 1000 * int a + 100 * int b + 10 * int c + int d
       then Some \<lparr>start = 1900, endYear = 1000 * int a + 100 * int b + 10 * int c + int d\<rparr>
       else None))
   \<and> (parseType currentYear raw = Some r \<longrightarrow>
        (\<exists>pre post g1 w1 w2 g2.
            raw = pre @ g1 @ w1 @ [45] @ w2 @ g2 @ post \<and>
            list_all isWhiteSpace pre \<and> list_all isWhiteSpace post \<and>
            list_all isWhiteSpace w1 \<and> list_all isWhiteSpace w2 \<and>
            fourDigits g1 \<and> (fourDigits g2 \<or> ciEq (js ''present'') g2))
      \<or> (\<exists>pre post x1 w1 x2 w2 x3 w3 g.
            raw = pre @ x1 @ w1 @ x2 @ w2 @ x3 @ w3 @ g @ post \<and>
            list_all isWhiteSpace pre \<and> list_all isWhiteSpace post \<and>
            ciEq (js ''In'') x1 \<and> w1 \<noteq> [] \<and> list_all isWhiteSpace w1 \<and>
            ciEq (js ''School'') x2 \<and> w2 \<noteq> [] \<and> list_all isWhiteSpace w2 \<and>
            ciEq (js ''Before'') x3 \<and> w3 \<noteq> [] \<and> list_all isWhiteSpace w3 \<and>
            fourDigits g \<and> 1900 \<le> digitsValue g \<and>
            r = \<lparr>start = 1900, endYear = digitsValue g\<rparr>))"
proof (intro conjI impI)
  assume h: "list_all isWhiteSpace pre \<and> list_all isWhiteSpace post \<and>
    ciEq (js ''In'') x1 \<and> w1 \<noteq> [] \<and> list_all isWhiteSpace w1 \<and>
    ciEq (js ''School'') x2 \<and> w2 \<noteq> [] \<and> list_all isWhiteSpace w2 \<and>
    ciEq (js ''Before'') x3 \<and> w3 \<noteq> [] \<and> list_all isWhiteSpace w3 \<and>
    a < 10 \<and> b < 10 \<and> c < 10 \<and> d < 10"
  then have g: "fourDigits [48 + a, 48 + b, 48 + c, 48 + d]"
    by (simp add: fourDigits_four)
  from h have "parseType currentYear
      (pre @ (x1 @ w1 @ x2 @ w2 @ x3 @ w3 @ [48 + a, 48 + b, 48 + c, 48 + d]) @ post) =
      (if 1900 \<le> digitsValue [48 + a, 48 + b, 48 + c, 48 + d]
       then Some \<lparr>start = 1900, endYear = digitsValue [48 + a, 48 + b, 48 + c, 48 + d]\<rparr>
       else None)"
    by (intro parseType_before g) simp_all
  then show "parseType currentYear
      (pre @ x1 @ w1 @ x2 @ w2 @ x3 @ w3 @ [48 + a, 48 + b, 48 + c, 48 + d] @ post) =
      (if 1900 \<le> 1000 * int a + 100 * int b + 10 * int c + int d
       then Some \<lparr>start = 1900, endYear = 1000 * int a + 100 * int b + 10 * int c + int d\<rparr>
       else None)"
    by (simp add: digitsValue_four)
next
  assume "parseType currentYear raw = Some r"
  then show "(\<exists>pre post g1 w1 w2 g2.
            raw = pre @ g1 @ w1 @ [45] @ w2 @ g2 @ post \<and>
            list_all isWhiteSpace pre \<and> list_all isWhiteSpace post \<and>
            list_all isWhiteSpace w1 \<and> list_all isWhiteSpace w2 \<and>
            fourDigits g1 \<and> (fourDigits g2 \<or> ciEq (js ''present'') g2))
      \<or> (\<exists>pre post x1 w1 x2 w2 x3 w3 g.
            raw = pre @ x1 @ w1 @ x2 @ w2 @ x3 @ w3 @ g @ post \<and>
            list_all isWhiteSpace pre \<and> list_all isWhiteSpace post \<and>
            ciEq (js ''In'') x1 \<and> w1 \<noteq> [] \<and> list_all isWhiteSpace w1 \<and>
            ciEq (js ''School'') x2 \<and> w2 \<noteq> [] \<and> list_all isWhiteSpace w2 \<and>
            ciEq (js ''Before'') x3 \<and> w3 \<noteq> [] \<and> list_all isWhiteSpace w3 \<and>
            fourDigits g \<and> 1900 \<le> digitsValue g \<and>
            r = \<lparr>start = 1900, endYear = digitsValue g\<rparr>)"
    by (rule parseType_Some_forms)
qed

theorem parseType_open_before_form_witness:
  "parseType 2026 (js ''in school  BEFORE 1995 '') = Some \<lparr>start = 1900, endYear = 1995\<rparr>
   \<and> parseType 2026 (js ''In School Before 1899'') = None"
proof -
  have a: "parseType 2026 (js ''in school  BEFORE 1995 '') = Some \<lparr>start = 1900, endYear = 1995\<rparr>"
    using parseType_open_before_form [where pre = "[]" and post = "js '' ''"
      and ?x1.0 = "js ''in''" and ?w1.0 = "js '' ''" and ?x2.0 = "js ''school''"
      and ?w2.0 = "js ''  ''" and ?x3.0 = "js ''BEFORE''" and ?w3.0 = "js '' ''"
      and a = 1 and b = 9 and c = 9 and d = 5 and currentYear = 2026]
    by (simp add: js_def isWhiteSpace_def ciEq_def ciChar_def canonicalize_def)
  have b: "parseType 2026 (js ''In School Before 1899'') = None"
    using parseType_open_before_form [where pre = "[]" and post = "[]"
      and ?x1.0 = "js ''In''" and ?w1.0 = "js '' ''" and ?x2.0 = "js ''School''"
      and ?w2.0 = "js '' ''" and ?x3.0 = "js ''Before''" and ?w3.0 = "js '' ''"
      and a = 1 and b = 8 and c = 9 and d = 9 and currentYear = 2026]
    by (simp add: js_def isWhiteSpace_def ciEq_def ciChar_def canonicalize_def)
  from a b show ?thesis by simp
qed

section \<open>Properties of the row classifier\<close>

lemma mapGet_mapSet: "mapGet (mapSet k v m) k' = (if k' = k then Some v else mapGet m k')"
  by (induction m) (auto simp: mapGet_def)

lemma forEachFrom_snoc:
  "forEachFrom f k (xs @ [x]) st = f (k + length xs) x (forEachFrom f k xs st)"
  by (induction xs arbitrary: k st) auto

lemma classifyRows_snoc:
  "classifyRows cy (rows @ [row]) st = classifyRow cy (length rows) row (classifyRows cy rows st)"
  by (simp add: classifyRows_def forEach_def forEachFrom_snoc)

lemma classifyRows_take_Suc:
  "i < length rows \<Longrightarrow>
   classifyRows cy (take (Suc i) rows) st = classifyRow cy i (rows ! i) (classifyRows cy (take i rows) st)"
  by (simp add: take_Suc_conv_app_nth classifyRows_snoc)

text \<open>
  Claim C7. A row whose school name is empty after trimming adds exactly one
  \<open>missingSchoolName\<close> record, with the line of the row, and changes nothing else: no fact is
  built and no other issue is recorded, whatever its link and type are.
\<close>

theorem missing_school_name_only:
  assumes "trim (orEmpty (School_Name row)) = []"
  shows "classifyRow cy index row st =
           st\<lparr>issues := (issues st)\<lparr>missingSchoolName :=
                 missingSchoolName (issues st) @ [\<lparr>MissingSchoolNameIssue.line = int index + 2\<rparr>]\<rparr>\<rparr>
         \<and> rangesBySchool (classifyRow cy index row st) = rangesBySchool st
         \<and> missingLink (issues (classifyRow cy index row st)) = missingLink (issues st)
         \<and> missingType (issues (classifyRow cy index row st)) = missingType (issues st)
         \<and> invalidType (issues (classifyRow cy index row st)) = invalidType (issues st)
         \<and> gaps (issues (classifyRow cy index row st)) = gaps (issues st)
         \<and> overlaps (issues (classifyRow cy index row st)) = overlaps (issues st)"
  using assms by (simp add: classifyRow_def)

text \<open>
  Claim C6. A row with a school name, an empty link (after trimming) and a type text that
  parses adds a \<open>missingLink\<close> record \<open>{line, schoolName, type}\<close> and still appends its fact
  to the array of its school; it adds no other issue.
\<close>

theorem missing_link_still_builds_fact:
  assumes name: "trim (orEmpty (School_Name row)) \<noteq> []"
    and nolink: "trim (orEmpty (Link row)) = []"
    and parsed: "parseType cy (orEmpty (Type row)) = Some r"
  shows "missingLink (issues (classifyRow cy index row st)) =
           missingLink (issues st) @
             [\<lparr>MissingLinkIssue.line = int index + 2,
               MissingLinkIssue.schoolName = trim (orEmpty (School_Name row)),
               MissingLinkIssue.type = trim (orEmpty (Type row))\<rparr>]
         \<and> mapGet (rangesBySchool (classifyRow cy index row st)) (trim (orEmpty (School_Name row))) =
             Some ((case mapGet (rangesBySchool st) (trim (orEmpty (School_Name row))) of
                      None \<Rightarrow> [] | Some a \<Rightarrow> a) @
                   [\<lparr>start = start r, endYear = endYear r, line = int index + 2,
                     rawType = trim (orEmpty (Type row)), link = []\<rparr>])
         \<and> missingSchoolName (issues (classifyRow cy index row st)) = missingSchoolName (issues st)
         \<and> missingType (issues (classifyRow cy index row st)) = missingType (issues st)
         \<and> invalidType (issues (classifyRow cy index row st)) = invalidType (issues st)"
proof -
  from parsed have p: "parseType cy (trim (orEmpty (Type row))) = Some r"
    by (simp add: parseType_trim)
  then have "trim (orEmpty (Type row)) \<noteq> []"
    using parseType_empty [of cy] by auto
  with name nolink p show ?thesis
    by (simp add: classifyRow_def Let_def mapGet_mapSet)
qed

lemma parseType_2000_2005:
  "parseType cy (js ''2000-2005'') = Some \<lparr>start = 2000, endYear = 2005\<rparr>"
  using parseType_bounded_years [where pre = "[]" and post = "[]" and ?w1.0 = "[]"
      and ?w2.0 = "[]" and ?g1.0 = "js ''2000''" and ?g2.0 = "js ''2005''" and cy = cy]
  by (simp add: js_def fourDigits_def isDigit_def digitsValue_def)

theorem missing_school_name_only_witness:
  "trim (orEmpty (School_Name
      \<lparr>School_Name = Some (js ''  ''), Link = None, Type = Some (js ''2000-2005'')\<rparr>)) = []
   \<and> classifyRow 2026 0
        \<lparr>School_Name = Some (js ''  ''), Link = None, Type = Some (js ''2000-2005'')\<rparr>
        initialState =
      initialState\<lparr>issues := (issues initialState)\<lparr>missingSchoolName :=
        [\<lparr>MissingSchoolNameIssue.line = 2\<rparr>]\<rparr>\<rparr>"
proof -
  have h: "trim (orEmpty (School_Name
      \<lparr>School_Name = Some (js ''  ''), Link = None, Type = Some (js ''2000-2005'')\<rparr>)) = []"
    by (simp add: orEmpty_def trim_def js_def isWhiteSpace_def)
  from missing_school_name_only [OF h, of 2026 0 initialState] h
  show ?thesis by (simp add: initialState_def)
qed

theorem missing_link_still_builds_fact_witness:
  "missingLink (issues (classifyRow 2026 0
      \<lparr>School_Name = Some (js ''Lincoln''), Link = Some (js '' ''), Type = Some (js ''2000-2005'')\<rparr>
      initialState)) =
     [\<lparr>MissingLinkIssue.line = 2, MissingLinkIssue.schoolName = js ''Lincoln'',
       MissingLinkIssue.type = js ''2000-2005''\<rparr>]
   \<and> mapGet (rangesBySchool (classifyRow 2026 0
      \<lparr>School_Name = Some (js ''Lincoln''), Link = Some (js '' ''), Type = Some (js ''2000-2005'')\<rparr>
      initialState)) (js ''Lincoln'') =
     Some [\<lparr>start = 2000, endYear = 2005, line = 2, rawType = js ''2000-2005'', link = []\<rparr>]"
proof -
  let ?row = "\<lparr>School_Name = Some (js ''Lincoln''), Link = Some (js '' ''), Type = Some (js ''2000-2005'')\<rparr>"
  have n: "trim (orEmpty (School_Name ?row)) = js ''Lincoln''"
    by (simp add: orEmpty_def trim_def js_def isWhiteSpace_def)
  have t: "trim (orEmpty (Type ?row)) = js ''2000-2005''"
    by (simp add: orEmpty_def trim_def js_def isWhiteSpace_def)
  have h1: "trim (orEmpty (School_Name ?row)) \<noteq> []"
    unfolding n by (simp add: js_def)
  have h2: "trim (orEmpty (Link ?row)) = []"
    by (simp add: orEmpty_def trim_def js_def isWhiteSpace_def)
  have h3: "parseType 2026 (orEmpty (Type ?row)) = Some \<lparr>start = 2000, endYear = 2005\<rparr>"
    using parseType_2000_2005 [of 2026] by (simp add: orEmpty_def)
  from missing_link_still_builds_fact [OF h1 h2 h3, of 0 initialState]
  show ?thesis
    unfolding n t by (simp add: initialState_def mapGet_def)
qed

lemma classifyRow_lines:
  "take (length (missingSchoolName (issues st))) (missingSchoolName (issues (classifyRow cy i row st)))
     = missingSchoolName (issues st)
   \<and> (\<forall>x\<in>set (drop (length (missingSchoolName (issues st)))
                 (missingSchoolName (issues (classifyRow cy i row st)))).
         MissingSchoolNameIssue.line x = int i + 2)
   \<and> take (length (missingLink (issues st))) (missingLink (issues (classifyRow cy i row st)))
     = missingLink (issues st)
   \<and> (\<forall>x\<in>set (drop (length (missingLink (issues st)))
                 (missingLink (issues (classifyRow cy i row st)))).
         MissingLinkIssue.line x = int i + 2)
   \<and> take (length (missingType (issues st))) (missingType (issues (classifyRow cy i row st)))
     = missingType (issues st)
   \<and> (\<forall>x\<in>set (drop (length (missingType (issues st)))
                 (missingType (issues (classifyRow cy i row st)))).
         MissingTypeIssue.line x = int i + 2)
   \<and> take (length (invalidType (issues st))) (invalidType (issues (classifyRow cy i row st)))
     = invalidType (issues st)
   \<and> (\<forall>x\<in>set (drop (length (invalidType (issues st)))
                 (invalidType (issues (classifyRow cy i row st)))).
         InvalidTypeIssue.line x = int i + 2)"
  by (simp add: classifyRow_def Let_def split: option.splits)

lemma classifyRow_fact_lines:
  "take (length (case mapGet (rangesBySchool st) k of None \<Rightarrow> [] | Some a \<Rightarrow> a))
        (case mapGet (rangesBySchool (classifyRow cy i row st)) k of None \<Rightarrow> [] | Some a \<Rightarrow> a)
     = (case mapGet (rangesBySchool st) k of None \<Rightarrow> [] | Some a \<Rightarrow> a)
   \<and> (\<forall>x\<in>set (drop (length (case mapGet (rangesBySchool st) k of None \<Rightarrow> [] | Some a \<Rightarrow> a))
                 (case mapGet (rangesBySchool (classifyRow cy i row st)) k of
                    None \<Rightarrow> [] | Some a \<Rightarrow> a)).
         line x = int i + 2)"
  by (simp add: classifyRow_def Let_def mapGet_mapSet split: option.splits)

text \<open>
  Claim C5, amended. The row at 0-based position \<open>i\<close> is classified with index \<open>i\<close>, after
  the rows before it, and every issue and every fact it adds carries the line \<open>i + 2\<close>
  (the lists only grow at their end; \<open>k\<close> is any school).
\<close>

theorem line_is_index_plus_two:
  assumes "i < length rows"
  shows "classifyRows cy (take (Suc i) rows) st =
           classifyRow cy i (rows ! i) (classifyRows cy (take i rows) st)
   \<and> take (length (missingSchoolName (issues (classifyRows cy (take i rows) st))))
        (missingSchoolName (issues (classifyRows cy (take (Suc i) rows) st)))
     = missingSchoolName (issues (classifyRows cy (take i rows) st))
   \<and> (\<forall>x\<in>set (drop (length (missingSchoolName (issues (classifyRows cy (take i rows) st))))
                 (missingSchoolName (issues (classifyRows cy (take (Suc i) rows) st)))).
         MissingSchoolNameIssue.line x = int i + 2)
   \<and> take (length (missingLink (issues (classifyRows cy (take i rows) st))))
        (missingLink (issues (classifyRows cy (take (Suc i) rows) st)))
     = missingLink (issues (classifyRows cy (take i rows) st))
   \<and> (\<forall>x\<in>set (drop (length (missingLink (issues (classifyRows cy (take i rows) st))))
                 (missingLink (issues (classifyRows cy (take (Suc i) rows) st)))).
         MissingLinkIssue.line x = int i + 2)
   \<and> take (length (missingType (issues (classifyRows cy (take i rows) st))))
        (missingType (issues (classifyRows cy (take (Suc i) rows) st)))
     = missingType (issues (classifyRows cy (take i rows) st))
   \<and> (\<forall>x\<in>set (drop (length (missingType (issues (classifyRows cy (take i rows) st))))
                 (missingType (issues (classifyRows cy (take (Suc i) rows) st)))).
         MissingTypeIssue.line x = int i + 2)
   \<and> take (length (invalidType (issues (classifyRows cy (take i rows) st))))
        (invalidType (issues (classifyRows cy (take (Suc i) rows) st)))
     = invalidType (issues (classifyRows cy (take i rows) st))
   \<and> (\<forall>x\<in>set (drop (length (invalidType (issues (classifyRows cy (take i rows) st))))
                 (invalidType (issues (classifyRows cy (take (Suc i) rows) st)))).
         InvalidTypeIssue.line x = int i + 2)
   \<and> take (length (case mapGet (rangesBySchool (classifyRows cy (take i rows) st)) k of
                     None \<Rightarrow> [] | Some a \<Rightarrow> a))
        (case mapGet (rangesBySchool (classifyRows cy (take (Suc i) rows) st)) k of
           None \<Rightarrow> [] | Some a \<Rightarrow> a)
     = (case mapGet (rangesBySchool (classifyRows cy (take i rows) st)) k of
          None \<Rightarrow> [] | Some a \<Rightarrow> a)
   \<and> (\<forall>x\<in>set (drop (length (case mapGet (rangesBySchool (classifyRows cy (take i rows) st)) k of
                                 None \<Rightarrow> [] | Some a \<Rightarrow> a))
                 (case mapGet (rangesBySchool (classifyRows cy (take (Suc i) rows) st)) k of
                    None \<Rightarrow> [] | Some a \<Rightarrow> a)).
         line x = int i + 2)"
  unfolding classifyRows_take_Suc [OF assms]
  using classifyRow_lines [of "classifyRows cy (take i rows) st" cy i "rows ! i"]
    classifyRow_fact_lines [of "classifyRows cy (take i rows) st" k cy i "rows ! i"]
  by blast

theorem line_is_index_plus_two_witness:
  "(0::nat) < length [\<lparr>School_Name = Some [], Link = Some (js ''x''), Type = Some (js ''2000-2005'')\<rparr>]
   \<and> classifyRows 2026 (take (Suc 0) [\<lparr>School_Name = Some [], Link = Some (js ''x''), Type = Some (js ''2000-2005'')\<rparr>])
        initialState =
      classifyRow 2026 0 ([\<lparr>School_Name = Some [], Link = Some (js ''x''), Type = Some (js ''2000-2005'')\<rparr>] ! 0)
        (classifyRows 2026 (take 0 [\<lparr>School_Name = Some [], Link = Some (js ''x''), Type = Some (js ''2000-2005'')\<rparr>])
           initialState)
   \<and> list_all (\<lambda>x. MissingSchoolNameIssue.line x = int 0 + 2)
        (drop (length (missingSchoolName (issues (classifyRows 2026
                 (take 0 [\<lparr>School_Name = Some [], Link = Some (js ''x''), Type = Some (js ''2000-2005'')\<rparr>]) initialState))))
           (missingSchoolName (issues (classifyRows 2026
              (take (Suc 0) [\<lparr>School_Name = Some [], Link = Some (js ''x''), Type = Some (js ''2000-2005'')\<rparr>]) initialState))))"
proof -
  have h: "(0::nat) < length [\<lparr>School_Name = Some [], Link = Some (js ''x''), Type = Some (js ''2000-2005'')\<rparr>]" by simp
  from line_is_index_plus_two [OF h, of 2026 initialState] h
  show ?thesis unfolding list_all_iff by blast
qed

lemma classifyRows_single:
  "classifyRows cy [row] st = classifyRow cy 0 row st"
  by (simp add: classifyRows_def forEach_def)

text \<open>
  Claim C5 as stated fails: the first data row, at position 0, is reported as line 2, which
  is not \<open>position + 1\<close>.
\<close>

theorem first_row_line_counterexample:
  "map MissingSchoolNameIssue.line (missingSchoolName (issues (classifyRows 2026
      [\<lparr>School_Name = Some [], Link = Some (js ''x''), Type = Some (js ''2000-2005'')\<rparr>] initialState))) = [2]
   \<and> map MissingSchoolNameIssue.line (missingSchoolName (issues (classifyRows 2026
      [\<lparr>School_Name = Some [], Link = Some (js ''x''), Type = Some (js ''2000-2005'')\<rparr>] initialState))) \<noteq> [int 0 + 1]"
  by (simp add: classifyRows_single classifyRow_def orEmpty_def trim_def initialState_def)

section \<open>Properties of the issue reporter\<close>

lemma reportCategory_fst:
  "fst (reportCategory header render items s) = (fst s \<or> items \<noteq> [])"
  by (cases s) (simp add: reportCategory_def)

lemma reportCategory_snd:
  "snd (reportCategory header render items s) =
     snd s @ (if items = [] then [] else header # map render items)"
  by (cases s) (simp add: reportCategory_def)

lemma reportAndExit_exit:
  "exit (reportAndExit iss) =
     (if missingSchoolName iss = [] \<and> missingLink iss = [] \<and> missingType iss = [] \<and>
         invalidType iss = [] \<and> gaps iss = [] \<and> overlaps iss = [] then None else Some 1)"
  by (simp add: reportAndExit_def Let_def split_def reportCategory_fst)

lemma reportAndExit_stdout:
  "stdout (reportAndExit iss) =
     (if missingSchoolName iss = [] \<and> missingLink iss = [] \<and> missingType iss = [] \<and>
         invalidType iss = [] \<and> gaps iss = [] \<and> overlaps iss = []
      then [js ''CSV validation passed: no missing links, invalid ranges, gaps, or overlaps found.'']
      else [])"
  by (simp add: reportAndExit_def Let_def split_def reportCategory_fst)

lemma reportAndExit_stderr:
  "stderr (reportAndExit iss) =
     (if missingSchoolName iss = [] then []
      else (10 # js ''Missing school name:'') #
           map (\<lambda>item. js ''  - line '' @ numberToString (MissingSchoolNameIssue.line item))
             (missingSchoolName iss))
   @ (if missingLink iss = [] then []
      else (10 # js ''Rows with missing links:'') #
           map (\<lambda>item. js ''  - line '' @ numberToString (MissingLinkIssue.line item) @ js '': ''
                  @ MissingLinkIssue.schoolName item @ js '' (''
                  @ (if MissingLinkIssue.type item = [] then js ''no type''
                     else MissingLinkIssue.type item) @ js '')'')
             (missingLink iss))
   @ (if missingType iss = [] then []
      else (10 # js ''Rows with missing year ranges (Type):'') #
           map (\<lambda>item. js ''  - line '' @ numberToString (MissingTypeIssue.line item) @ js '': ''
                  @ MissingTypeIssue.schoolName item)
             (missingType iss))
   @ (if invalidType iss = [] then []
      else (10 # js ''Rows with invalid year ranges:'') #
           map (\<lambda>item. js ''  - line '' @ numberToString (InvalidTypeIssue.line item) @ js '': ''
                  @ InvalidTypeIssue.schoolName item @ js '' ('' @ InvalidTypeIssue.type item
                  @ js '')'')
             (invalidType iss))
   @ (if gaps iss = [] then []
      else (10 # js ''Detected year gaps within the same school:'') #
           map (\<lambda>item. js ''  - '' @ GapIssue.schoolName item @ js '': ''
                  @ numberToString (fromYear item) @ js ''-'' @ numberToString (toYear item)
                  @ js '' (between lines '' @ numberToString (GapIssue.prevLine item)
                  @ js '' and '' @ numberToString (GapIssue.currLine item) @ js '')'')
             (gaps iss))
   @ (if overlaps iss = [] then []
      else (10 # js ''Detected overlapping year ranges within the same school:'') #
           map (\<lambda>item. js ''  - '' @ OverlapIssue.schoolName item @ js '': ''
                  @ numberToString (overlapStart item) @ js ''-''
                  @ numberToString (overlapEnd item)
                  @ js '' (between lines '' @ numberToString (OverlapIssue.prevLine item)
                  @ js '' and '' @ numberToString (OverlapIssue.currLine item) @ js '')'')
             (overlaps iss))"
proof -
  have "stderr (reportAndExit iss) = snd
     (reportCategory
                 (10 # js ''Detected overlapping year ranges within the same school:'')
                 (\<lambda>item. js ''  - '' @ OverlapIssue.schoolName item @ js '': ''
                    @ numberToString (overlapStart item) @ js ''-''
                    @ numberToString (overlapEnd item)
                    @ js '' (between lines '' @ numberToString (OverlapIssue.prevLine item)
                    @ js '' and '' @ numberToString (OverlapIssue.currLine item) @ js '')'')
                 (overlaps iss)
     (reportCategory (10 # js ''Detected year gaps within the same school:'')
                 (\<lambda>item. js ''  - '' @ GapIssue.schoolName item @ js '': ''
                    @ numberToString (fromYear item) @ js ''-'' @ numberToString (toYear item)
                    @ js '' (between lines '' @ numberToString (GapIssue.prevLine item)
                    @ js '' and '' @ numberToString (GapIssue.currLine item) @ js '')'')
                 (gaps iss)
     (reportCategory (10 # js ''Rows with invalid year ranges:'')
                 (\<lambda>item. js ''  - line '' @ numberToString (InvalidTypeIssue.line item) @ js '': ''
                    @ InvalidTypeIssue.schoolName item @ js '' ('' @ InvalidTypeIssue.type item
                    @ js '')'')
                 (invalidType iss)
     (reportCategory (10 # js ''Rows with missing year ranges (Type):'')
                 (\<lambda>item. js ''  - line '' @ numberToString (MissingTypeIssue.line item) @ js '': ''
                    @ MissingTypeIssue.schoolName item)
                 (missingType iss)
     (reportCategory (10 # js ''Rows with missing links:'')
                 (\<lambda>item. js ''  - line '' @ numberToString (MissingLinkIssue.line item) @ js '': ''
                    @ MissingLinkIssue.schoolName item @ js '' (''
                    @ (if MissingLinkIssue.type item = [] then js ''no type''
                       else MissingLinkIssue.type item) @ js '')'')
                 (missingLink iss)
     (reportCategory (10 # js ''Missing school name:'')
                 (\<lambda>item. js ''  - line '' @ numberToString (MissingSchoolNameIssue.line item))
                 (missingSchoolName iss) (False, [])))))))"
    unfolding reportAndExit_def Let_def split_def by simp
  then show ?thesis
    by (simp only: reportCategory_snd snd_conv append_Nil append_assoc)
qed

text \<open>
  Claim C8. \<open>reportAndExit\<close> returns without exiting exactly when all six categories are
  empty, and calls \<open>process.exit(1)\<close> exactly when one of them is not (a missing link alone
  is enough); the exit status is 0 or 1 accordingly. What it writes to the error stream is
  the blocks of the non-empty categories in the order missing names, missing links, missing
  types, invalid types, gaps, overlaps, each a header followed by one line per record.
\<close>

theorem report_fails_iff_any_issue:
  "(exit (reportAndExit iss) = None \<longleftrightarrow>
      missingSchoolName iss = [] \<and> missingLink iss = [] \<and> missingType iss = [] \<and>
      invalidType iss = [] \<and> gaps iss = [] \<and> overlaps iss = [])
   \<and> (exit (reportAndExit iss) = Some 1 \<longleftrightarrow>
      missingSchoolName iss \<noteq> [] \<or> missingLink iss \<noteq> [] \<or> missingType iss \<noteq> [] \<or>
      invalidType iss \<noteq> [] \<or> gaps iss \<noteq> [] \<or> overlaps iss \<noteq> [])
   \<and> exitStatus (reportAndExit iss) =
       (if missingSchoolName iss = [] \<and> missingLink iss = [] \<and> missingType iss = [] \<and>
           invalidType iss = [] \<and> gaps iss = [] \<and> overlaps iss = [] then 0 else 1)
   \<and> stdout (reportAndExit iss) =
       (if missingSchoolName iss = [] \<and> missingLink iss = [] \<and> missingType iss = [] \<and>
           invalidType iss = [] \<and> gaps iss = [] \<and> overlaps iss = []
        then [js ''CSV validation passed: no missing links, invalid ranges, gaps, or overlaps found.'']
        else [])
   \<and> stderr (reportAndExit iss) =
     (if missingSchoolName iss = [] then []
      else (10 # js ''Missing school name:'') #
           map (\<lambda>item. js ''  - line '' @ numberToString (MissingSchoolNameIssue.line item))
             (missingSchoolName iss))
   @ (if missingLink iss = [] then []
      else (10 # js ''Rows with missing links:'') #
           map (\<lambda>item. js ''  - line '' @ numberToString (MissingLinkIssue.line item) @ js '': ''
                  @ MissingLinkIssue.schoolName item @ js '' (''
                  @ (if MissingLinkIssue.type item = [] then js ''no type''
                     else MissingLinkIssue.type item) @ js '')'')
             (missingLink iss))
   @ (if missingType iss = [] then []
      else (10 # js ''Rows with missing year ranges (Type):'') #
           map (\<lambda>item. js ''  - line '' @ numberToString (MissingTypeIssue.line item) @ js '': ''
                  @ MissingTypeIssue.schoolName item)
             (missingType iss))
   @ (if invalidType iss = [] then []
      else (10 # js ''Rows with invalid year ranges:'') #
           map (\<lambda>item. js ''  - line '' @ numberToString (InvalidTypeIssue.line item) @ js '': ''
                  @ InvalidTypeIssue.schoolName item @ js '' ('' @ InvalidTypeIssue.type item
                  @ js '')'')
             (invalidType iss))
   @ (if gaps iss = [] then []
      else (10 # js ''Detected year gaps within the same school:'') #
           map (\<lambda>item. js ''  - '' @ GapIssue.schoolName item @ js '': ''
                  @ numberToString (fromYear item) @ js ''-'' @ numberToString (toYear item)
                  @ js '' (between lines '' @ numberToString (GapIssue.prevLine item)
                  @ js '' and '' @ numberToString (GapIssue.currLine item) @ js '')'')
             (gaps iss))
   @ (if overlaps iss = [] then []
      else (10 # js ''Detected overlapping year ranges within the same school:'') #
           map (\<lambda>item. js ''  - '' @ OverlapIssue.schoolName item @ js '': ''
                  @ numberToString (overlapStart item) @ js ''-''
                  @ numberToString (overlapEnd item)
                  @ js '' (between lines '' @ numberToString (OverlapIssue.prevLine item)
                  @ js '' and '' @ numberToString (OverlapIssue.currLine item) @ js '')'')
             (overlaps iss))"
proof -
  have a: "exit (reportAndExit iss) = None \<longleftrightarrow>
      missingSchoolName iss = [] \<and> missingLink iss = [] \<and> missingType iss = [] \<and>
      invalidType iss = [] \<and> gaps iss = [] \<and> overlaps iss = []"
    by (simp add: reportAndExit_exit)
  have b: "exit (reportAndExit iss) = Some 1 \<longleftrightarrow>
      missingSchoolName iss \<noteq> [] \<or> missingLink iss \<noteq> [] \<or> missingType iss \<noteq> [] \<or>
      invalidType iss \<noteq> [] \<or> gaps iss \<noteq> [] \<or> overlaps iss \<noteq> []"
    by (auto simp: reportAndExit_exit)
  have c: "exitStatus (reportAndExit iss) =
       (if missingSchoolName iss = [] \<and> missingLink iss = [] \<and> missingType iss = [] \<and>
           invalidType iss = [] \<and> gaps iss = [] \<and> overlaps iss = [] then 0 else 1)"
    by (simp add: exitStatus_def reportAndExit_exit)
  from a b c reportAndExit_stdout [of iss] reportAndExit_stderr [of iss]
  show ?thesis by (intro conjI)
qed

lemma numberToString_2: "numberToString 2 = js ''2''"
  by (simp add: numberToString_def digitsOf.simps js_def)

theorem report_fails_iff_any_issue_witness:
  "exit (reportAndExit ((issues initialState)
      \<lparr>missingLink := [\<lparr>MissingLinkIssue.line = 2, MissingLinkIssue.schoolName = js ''Lincoln'',
                        MissingLinkIssue.type = []\<rparr>]\<rparr>)) = Some 1
   \<and> exitStatus (reportAndExit ((issues initialState)
      \<lparr>missingLink := [\<lparr>MissingLinkIssue.line = 2, MissingLinkIssue.schoolName = js ''Lincoln'',
                        MissingLinkIssue.type = []\<rparr>]\<rparr>)) = 1
   \<and> stderr (reportAndExit ((issues initialState)
      \<lparr>missingLink := [\<lparr>MissingLinkIssue.line = 2, MissingLinkIssue.schoolName = js ''Lincoln'',
                        MissingLinkIssue.type = []\<rparr>]\<rparr>)) =
       [10 # js ''Rows with missing links:'', js ''  - line 2: Lincoln (no type)'']
   \<and> exit (reportAndExit (issues initialState)) = None"
  using report_fails_iff_any_issue [of "(issues initialState)
      \<lparr>missingLink := [\<lparr>MissingLinkIssue.line = 2, MissingLinkIssue.schoolName = js ''Lincoln'',
                        MissingLinkIssue.type = []\<rparr>]\<rparr>"]
    report_fails_iff_any_issue [of "issues initialState"]
  by (simp add: initialState_def numberToString_2 js_def)

end
